theory Spec2Isabelle
  imports Complex_Main
begin

section \<open>Data model\<close>

text \<open>
  The tables of the relational store, as the services read and write them. Identifiers
  (binary UUIDs in the source) are natural numbers; a row is a record; a table is the
  list of its rows in creation order. Monetary amounts are JavaScript numbers obtained
  with \<open>parseFloat\<close> from \<open>DECIMAL(18,8)\<close> columns: they are modelled as exact
  rationals, so the rounding of doubles and of the decimal columns is outside the model.
  A choice letter, and the winning side that is compared with it, is one character.
  Columns that no modelled operation reads (descriptions, names of users, images,
  timestamps of settlement) are left out.
\<close>

type_synonym id = nat

datatype currency = chips | usd | usdc | sol | eth

datatype transaction_type =
    deposit | chips_buy | event_create | event_create_ai | private_event
  | bet_placed | bet_won | ai_insight_buy | referral_reward | prize_won | cashout

datatype reference_type =
  event_bet | event_payout | event_refund | cashout_request | cashout_request_refund

datatype event_status =
  draft | pending | active | locked | completed | paid_out | cancelled

datatype bet_status = bet_active | bet_won_s | bet_lost | bet_refunded

datatype payout_status = payout_pending | payout_completed | payout_rejected

datatype request_status = request_pending | request_completed | request_rejected

record ledger_row =
  l_userId :: id
  l_currency :: currency
  l_amount :: rat
  l_balanceBefore :: rat
  l_balanceAfter :: rat
  l_transactionType :: transaction_type
  l_referenceType :: "reference_type option"
  l_referenceId :: "id option"

record event_row =
  e_id :: id
  e_name :: string
  e_status :: event_status
  e_winningSide :: "char option"
  e_lockTime :: "nat option"
  e_creatorCommission :: rat

record choice_row =
  c_eventId :: id
  c_choiceLetter :: char
  c_totalPool :: rat

record bet_row =
  b_id :: id
  b_eventId :: id
  b_userId :: id
  b_choiceLetter :: char
  b_amount :: rat
  b_status :: bet_status

record payout_row =
  p_id :: id
  p_eventId :: id
  p_userId :: id
  p_payoutAmount :: rat
  p_status :: payout_status
  p_adminId :: "id option"

record request_row =
  r_id :: id
  r_userId :: id
  r_amount :: rat
  r_currency :: currency
  r_walletAddress :: string
  r_status :: request_status

record store =
  users :: "id list"
  ledger :: "ledger_row list"
  events :: "event_row list"
  choices :: "choice_row list"
  bets :: "bet_row list"
  payouts :: "payout_row list"
  requests :: "request_row list"
  next_id :: id

text \<open>
  Every \<open>throw new AppError(message, statusCode)\<close> of the services is one constructor,
  carrying the value the message interpolates; \<open>statusCode\<close> gives the HTTP status
  the source passes along.
\<close>

datatype app_error =
    EventNotFound
  | NotAcceptingBets
  | BettingLocked
  | InvalidChoice
  | InsufficientBalance rat
  | InvalidWinningSide
  | AlreadyResolved
  | MustBeLockedOrActive
  | NoPendingPayouts
  | MustBeCancelled
  | CannotUpdate
  | CannotCancel
  | InsufficientWonChips rat
  | RequestNotFound
  | AlreadyProcessed
  | WithdrawalFailedRefunded
  | PriceFeedError
  | RecordNotFound
  | UserNotFound

fun statusCode :: "app_error \<Rightarrow> nat" where
  "statusCode EventNotFound = 404"
| "statusCode RequestNotFound = 404"
| "statusCode UserNotFound = 404"
| "statusCode WithdrawalFailedRefunded = 500"
| "statusCode PriceFeedError = 500"
| "statusCode _ = 400"

section \<open>BalanceService.getUserBalances\<close>

record UserBalances =
  purchasedChips :: rat
  wonChips :: rat
  freeChips :: rat
  lockedChips :: rat
  totalChips :: rat

text \<open>The body of the \<open>for (const tx of transactions)\<close> loop: one \<open>switch\<close> step.\<close>

fun scan_tx :: "UserBalances \<Rightarrow> ledger_row \<Rightarrow> UserBalances" where
  "scan_tx acc tx =
     (let amount = l_amount tx in
      case l_transactionType tx of
        deposit \<Rightarrow> acc\<lparr>purchasedChips := purchasedChips acc + amount\<rparr>
      | chips_buy \<Rightarrow> acc\<lparr>purchasedChips := purchasedChips acc + amount\<rparr>
      | bet_won \<Rightarrow> acc\<lparr>wonChips := wonChips acc + amount\<rparr>
      | prize_won \<Rightarrow> acc\<lparr>wonChips := wonChips acc + amount\<rparr>
      | referral_reward \<Rightarrow> acc\<lparr>freeChips := freeChips acc + amount\<rparr>
      | bet_placed \<Rightarrow>
          (if amount < 0 then acc\<lparr>lockedChips := lockedChips acc + \<bar>amount\<bar>\<rparr> else acc)
      | event_create \<Rightarrow> acc
      | event_create_ai \<Rightarrow> acc
      | private_event \<Rightarrow> acc
      | cashout \<Rightarrow> (if amount < 0 then acc\<lparr>wonChips := wonChips acc + amount\<rparr> else acc)
      | ai_insight_buy \<Rightarrow> acc)"

definition zero_balances :: UserBalances where
  "zero_balances =
     \<lparr>purchasedChips = 0, wonChips = 0, freeChips = 0, lockedChips = 0, totalChips = 0\<rparr>"

text \<open>
  \<open>prisma.ledger.findMany\<close> with \<open>userId\<close> and \<open>currency: 'chips'\<close>, ordered by
  creation; then the live aggregate over the user's active bets, which overwrites the
  \<open>lockedChips\<close> of the scan; then the clamps and the total. The function never looks
  at the table of users and has no \<open>throw\<close>.
\<close>

definition user_transactions :: "store \<Rightarrow> id \<Rightarrow> ledger_row list" where
  "user_transactions s userId =
     filter (\<lambda>tx. l_userId tx = userId \<and> l_currency tx = chips) (ledger s)"

definition activeBets_sum :: "store \<Rightarrow> id \<Rightarrow> rat" where
  "activeBets_sum s userId =
     sum_list (map b_amount
       (filter (\<lambda>b. b_userId b = userId \<and> b_status b = bet_active) (bets s)))"

definition getUserBalances :: "store \<Rightarrow> id \<Rightarrow> UserBalances" where
  "getUserBalances s userId =
     (let scanned = foldl scan_tx zero_balances (user_transactions s userId);
          lockedChips' = activeBets_sum s userId;
          purchasedChips' = max 0 (purchasedChips scanned);
          wonChips' = max 0 (wonChips scanned);
          freeChips' = max 0 (freeChips scanned);
          lockedChips'' = max 0 lockedChips'
      in \<lparr>purchasedChips = purchasedChips', wonChips = wonChips', freeChips = freeChips',
          lockedChips = lockedChips'', totalChips = purchasedChips' + wonChips' + freeChips'\<rparr>)"

text \<open>
  What a caller of \<open>getUserBalances\<close> receives: the promise always resolves with the
  balances. \<open>UserService.getProfile\<close> is the caller that looks the user up first; of
  the profile it returns, only the balances are kept here.
\<close>

definition getUserBalances_result :: "store \<Rightarrow> id \<Rightarrow> app_error + UserBalances" where
  "getUserBalances_result s userId = Inr (getUserBalances s userId)"

definition getProfile :: "store \<Rightarrow> id \<Rightarrow> app_error + UserBalances" where
  "getProfile s userId =
     (case find (\<lambda>u. u = userId) (users s) of
        None \<Rightarrow> Inl UserNotFound
      | Some user \<Rightarrow> Inr (getUserBalances s userId))"

section \<open>BalanceService.addChips\<close>

definition credit_row ::
  "id \<Rightarrow> rat \<Rightarrow> rat \<Rightarrow> transaction_type \<Rightarrow> reference_type option \<Rightarrow> id option \<Rightarrow> ledger_row" where
  "credit_row userId amount bal ttype refType refId =
     \<lparr>l_userId = userId, l_currency = chips, l_amount = amount,
      l_balanceBefore = bal, l_balanceAfter = bal + amount,
      l_transactionType = ttype, l_referenceType = refType, l_referenceId = refId\<rparr>"

definition addChips ::
  "store \<Rightarrow> id \<Rightarrow> rat \<Rightarrow> transaction_type \<Rightarrow> reference_type option \<Rightarrow> id option
     \<Rightarrow> store \<times> UserBalances" where
  "addChips s userId amount ttype refType refId =
     (let currentBalance = getUserBalances s userId;
          s' = s\<lparr>ledger := ledger s @
                 [credit_row userId amount (totalChips currentBalance) ttype refType refId]\<rparr>
      in (s', getUserBalances s' userId))"

section \<open>BetService.placeBet\<close>

text \<open>
  \<open>now\<close> is the value of \<open>new Date()\<close> at the call; the bet's id, a generated UUID in
  the source, is the store's next fresh identifier. The checks come in the order of the
  source; every \<open>throw\<close> returns the store it was given.
\<close>

text \<open>\<open>include: { choices: true }\<close>: the choices of one event.\<close>

definition event_choices :: "store \<Rightarrow> id \<Rightarrow> choice_row list" where
  "event_choices s eventId = filter (\<lambda>c. c_eventId c = eventId) (choices s)"

record bet_result =
  res_betId :: id
  res_balances :: UserBalances

definition past_lock :: "event_row \<Rightarrow> nat \<Rightarrow> bool" where
  "past_lock ev now = (case e_lockTime ev of None \<Rightarrow> False | Some t \<Rightarrow> t \<le> now)"

definition bet_ledger_row :: "id \<Rightarrow> rat \<Rightarrow> rat \<Rightarrow> id \<Rightarrow> ledger_row" where
  "bet_ledger_row userId amount bal betId =
     \<lparr>l_userId = userId, l_currency = chips, l_amount = - amount,
      l_balanceBefore = bal, l_balanceAfter = bal - amount,
      l_transactionType = bet_placed, l_referenceType = Some event_bet,
      l_referenceId = Some betId\<rparr>"

definition increment_pool :: "id \<Rightarrow> char \<Rightarrow> rat \<Rightarrow> choice_row \<Rightarrow> choice_row" where
  "increment_pool eventId choiceLetter amount c =
     (if c_eventId c = eventId \<and> c_choiceLetter c = choiceLetter
      then c\<lparr>c_totalPool := c_totalPool c + amount\<rparr> else c)"

definition placeBet ::
  "store \<Rightarrow> nat \<Rightarrow> id \<Rightarrow> id \<Rightarrow> char \<Rightarrow> rat \<Rightarrow> store \<times> (app_error + bet_result)" where
  "placeBet s now userId eventId choiceLetter amount =
     (case find (\<lambda>e. e_id e = eventId) (events s) of
        None \<Rightarrow> (s, Inl EventNotFound)
      | Some event \<Rightarrow>
          if e_status event \<noteq> active then (s, Inl NotAcceptingBets)
          else if past_lock event now then (s, Inl BettingLocked)
          else (case find (\<lambda>c. c_choiceLetter c = choiceLetter) (event_choices s eventId) of
             None \<Rightarrow> (s, Inl InvalidChoice)
           | Some choice \<Rightarrow>
               let balances = getUserBalances s userId in
               if totalChips balances < amount
               then (s, Inl (InsufficientBalance (totalChips balances)))
               else
                 let currentBalance = getUserBalances s userId;
                     betId = next_id s;
                     newBet = \<lparr>b_id = betId, b_eventId = eventId, b_userId = userId,
                               b_choiceLetter = choiceLetter, b_amount = amount,
                               b_status = bet_active\<rparr>;
                     s' = s\<lparr>bets := bets s @ [newBet],
                            choices := map (increment_pool eventId choiceLetter amount) (choices s),
                            ledger := ledger s @
                              [bet_ledger_row userId amount (totalChips currentBalance) betId],
                            next_id := Suc (next_id s)\<rparr>
                 in (s', Inr \<lparr>res_betId = betId, res_balances = getUserBalances s' userId\<rparr>)))"

section \<open>PayoutService\<close>

record payout_calc =
  pc_userId :: id
  pc_betId :: id
  pc_betAmount :: rat
  pc_payout :: rat
  pc_profit :: rat

record refund_calc =
  rf_userId :: id
  rf_amount :: rat
  rf_betId :: id

record calculation =
  calc_payouts :: "payout_calc list"
  calc_refunds :: "refund_calc list"
  calc_totalPaid :: rat
  calc_eventRakeAmount :: "rat option"
  calc_prizePoolRake :: rat

definition COMPANY_PRIZE_POOL_RAKE :: rat where
  "COMPANY_PRIZE_POOL_RAKE = 0.025"

definition event_active_bets :: "store \<Rightarrow> id \<Rightarrow> bet_row list" where
  "event_active_bets s eventId =
     filter (\<lambda>b. b_eventId b = eventId \<and> b_status b = bet_active) (bets s)"

definition refund_of :: "bet_row \<Rightarrow> refund_calc" where
  "refund_of bet = \<lparr>rf_userId = b_userId bet, rf_amount = b_amount bet, rf_betId = b_id bet\<rparr>"

definition winner_payout :: "rat \<Rightarrow> rat \<Rightarrow> bet_row \<Rightarrow> payout_calc" where
  "winner_payout distributionPool winningPool bet =
     (let betAmount = b_amount bet;
          betPercentage = betAmount / winningPool;
          shareOfPool = distributionPool * betPercentage;
          totalPayout = shareOfPool;
          profit = totalPayout - betAmount
      in \<lparr>pc_userId = b_userId bet, pc_betId = b_id bet, pc_betAmount = betAmount,
          pc_payout = totalPayout, pc_profit = profit\<rparr>)"

text \<open>
  The \<open>reduce\<close> calls of the source are left folds from 0. In the branch for an empty
  winning pool the returned object has no \<open>eventRakeAmount\<close> property: the field is
  \<open>None\<close> there.
\<close>

definition calculatePayouts :: "store \<Rightarrow> id \<Rightarrow> char \<Rightarrow> app_error + calculation" where
  "calculatePayouts s eventId winningSide =
     (case find (\<lambda>e. e_id e = eventId) (events s) of
        None \<Rightarrow> Inl EventNotFound
      | Some event \<Rightarrow>
          (case find (\<lambda>c. c_choiceLetter c = winningSide) (event_choices s eventId) of
             None \<Rightarrow> Inl InvalidWinningSide
           | Some winningChoice \<Rightarrow>
               let totalPool = foldl (\<lambda>sum choice. sum + c_totalPool choice) 0
                                 (event_choices s eventId);
                   winningPool = c_totalPool winningChoice
               in if winningPool = 0
                  then Inr \<lparr>calc_payouts = [],
                            calc_refunds = map refund_of (event_active_bets s eventId),
                            calc_totalPaid = 0, calc_eventRakeAmount = None,
                            calc_prizePoolRake = 0\<rparr>
                  else
                    let eventRake = e_creatorCommission event;
                        eventRakeAmount = totalPool * eventRake;
                        poolAfterEventRake = totalPool - eventRakeAmount;
                        prizePoolRakeAmount = poolAfterEventRake * COMPANY_PRIZE_POOL_RAKE;
                        distributionPool = poolAfterEventRake - prizePoolRakeAmount;
                        winningBets = filter (\<lambda>bet. b_choiceLetter bet = winningSide)
                                        (event_active_bets s eventId);
                        payouts' = map (winner_payout distributionPool winningPool) winningBets;
                        totalPaid = foldl (\<lambda>sum p. sum + pc_payout p) 0 payouts'
                    in Inr \<lparr>calc_payouts = payouts', calc_refunds = [],
                            calc_totalPaid = totalPaid,
                            calc_eventRakeAmount = Some eventRakeAmount,
                            calc_prizePoolRake = prizePoolRakeAmount\<rparr>))"

record resolve_result =
  rr_payoutsCount :: nat
  rr_totalPayout :: rat
  rr_eventRake :: "rat option"
  rr_prizePoolRake :: rat
  rr_status :: event_status

definition set_event :: "id \<Rightarrow> (event_row \<Rightarrow> event_row) \<Rightarrow> store \<Rightarrow> store" where
  "set_event eventId f s =
     s\<lparr>events := map (\<lambda>e. if e_id e = eventId then f e else e) (events s)\<rparr>"

definition updateMany_bets :: "(bet_row \<Rightarrow> bool) \<Rightarrow> bet_status \<Rightarrow> store \<Rightarrow> store" where
  "updateMany_bets P st s =
     s\<lparr>bets := map (\<lambda>b. if P b then b\<lparr>b_status := st\<rparr> else b) (bets s)\<rparr>"

definition payout_of :: "id \<Rightarrow> id \<Rightarrow> id \<Rightarrow> payout_calc \<Rightarrow> payout_row" where
  "payout_of eventId adminId newId payout =
     \<lparr>p_id = newId, p_eventId = eventId, p_userId = pc_userId payout,
      p_payoutAmount = pc_payout payout, p_status = payout_pending,
      p_adminId = Some adminId\<rparr>"

definition create_payout :: "id \<Rightarrow> id \<Rightarrow> store \<Rightarrow> payout_calc \<Rightarrow> store" where
  "create_payout eventId adminId s payout =
     s\<lparr>payouts := payouts s @ [payout_of eventId adminId (next_id s) payout],
       next_id := Suc (next_id s)\<rparr>"

definition refund_bet :: "store \<Rightarrow> refund_calc \<Rightarrow> store" where
  "refund_bet s refund = updateMany_bets (\<lambda>b. b_id b = rf_betId refund) bet_refunded s"

text \<open>
  The transaction of \<open>resolveEvent\<close>, statement by statement: the event, the two
  \<open>updateMany\<close> on the bets, one payout row per computed payout, then one update by
  id per computed refund.
\<close>

definition resolve_commit :: "id \<Rightarrow> char \<Rightarrow> id \<Rightarrow> calculation \<Rightarrow> store \<Rightarrow> store" where
  "resolve_commit eventId winningSide adminId calc s =
     (let s1 = set_event eventId
                 (\<lambda>e. e\<lparr>e_status := completed, e_winningSide := Some winningSide\<rparr>) s;
          s2 = updateMany_bets (\<lambda>b. b_eventId b = eventId \<and> b_choiceLetter b = winningSide
                                    \<and> b_status b = bet_active) bet_won_s s1;
          s3 = updateMany_bets (\<lambda>b. b_eventId b = eventId \<and> b_choiceLetter b \<noteq> winningSide
                                    \<and> b_status b = bet_active) bet_lost s2;
          s4 = foldl (create_payout eventId adminId) s3 (calc_payouts calc)
      in foldl refund_bet s4 (calc_refunds calc))"

definition resolveEvent ::
  "store \<Rightarrow> id \<Rightarrow> char \<Rightarrow> id \<Rightarrow> store \<times> (app_error + resolve_result)" where
  "resolveEvent s eventId winningSide adminId =
     (case find (\<lambda>e. e_id e = eventId) (events s) of
        None \<Rightarrow> (s, Inl EventNotFound)
      | Some event \<Rightarrow>
          if e_status event = completed \<or> e_status event = paid_out
          then (s, Inl AlreadyResolved)
          else if e_status event \<noteq> locked \<and> e_status event \<noteq> active
          then (s, Inl MustBeLockedOrActive)
          else (case calculatePayouts s eventId winningSide of
             Inl err \<Rightarrow> (s, Inl err)
           | Inr calc \<Rightarrow>
               (resolve_commit eventId winningSide adminId calc s,
                Inr \<lparr>rr_payoutsCount = length (calc_payouts calc),
                     rr_totalPayout = calc_totalPaid calc,
                     rr_eventRake = calc_eventRakeAmount calc,
                     rr_prizePoolRake = calc_prizePoolRake calc,
                     rr_status = completed\<rparr>)))"

text \<open>
  Inside the transactions of \<open>distributePayouts\<close> and \<open>refundEvent\<close> the balance is
  read with \<open>BalanceService.getUserBalances\<close>, which queries through the global
  client and not through the transaction handle: it sees the store as it was committed
  before the transaction (\<open>s0\<close> below), not the rows the loop has written so far.
\<close>

definition pay_one :: "store \<Rightarrow> id \<Rightarrow> store \<Rightarrow> payout_row \<Rightarrow> store" where
  "pay_one s0 adminId s payout =
     (let amount = p_payoutAmount payout;
          currentBalance = getUserBalances s0 (p_userId payout)
      in s\<lparr>ledger := ledger s @
              [credit_row (p_userId payout) amount (totalChips currentBalance) bet_won
                 (Some event_payout) (Some (p_id payout))],
           payouts := map (\<lambda>p. if p_id p = p_id payout
                                 then p\<lparr>p_status := payout_completed, p_adminId := Some adminId\<rparr>
                                 else p) (payouts s)\<rparr>)"

definition pending_payouts :: "store \<Rightarrow> id \<Rightarrow> payout_row list" where
  "pending_payouts s eventId =
     filter (\<lambda>p. p_eventId p = eventId \<and> p_status p = payout_pending) (payouts s)"

record distribution_result =
  dr_payoutsProcessed :: nat
  dr_totalAmount :: rat

text \<open>
  The last statement of the transaction updates the event by id; on a missing row the
  client raises and the transaction is rolled back.
\<close>

definition distributePayouts ::
  "store \<Rightarrow> id \<Rightarrow> id \<Rightarrow> store \<times> (app_error + distribution_result)" where
  "distributePayouts s eventId adminId =
     (let payouts' = pending_payouts s eventId in
      if length payouts' = 0 then (s, Inl NoPendingPayouts)
      else
        let s1 = foldl (pay_one s adminId) s payouts' in
        if find (\<lambda>e. e_id e = eventId) (events s1) = None then (s, Inl RecordNotFound)
        else (set_event eventId (\<lambda>e. e\<lparr>e_status := paid_out\<rparr>) s1,
              Inr \<lparr>dr_payoutsProcessed = length payouts',
                   dr_totalAmount = foldl (\<lambda>sum r. sum + p_payoutAmount r) 0 payouts'\<rparr>))"

definition refund_one :: "store \<Rightarrow> store \<Rightarrow> bet_row \<Rightarrow> store" where
  "refund_one s0 s bet =
     (let amount = b_amount bet;
          currentBalance = getUserBalances s0 (b_userId bet);
          s' = s\<lparr>ledger := ledger s @
                 [credit_row (b_userId bet) amount (totalChips currentBalance) bet_won
                    (Some event_refund) (Some (b_id bet))]\<rparr>
      in updateMany_bets (\<lambda>b. b_id b = b_id bet) bet_refunded s')"

record refund_result =
  fr_refundsProcessed :: nat
  fr_totalAmount :: rat

definition refundEvent :: "store \<Rightarrow> id \<Rightarrow> store \<times> (app_error + refund_result)" where
  "refundEvent s eventId =
     (case find (\<lambda>e. e_id e = eventId) (events s) of
        None \<Rightarrow> (s, Inl EventNotFound)
      | Some event \<Rightarrow>
          if e_status event \<noteq> cancelled then (s, Inl MustBeCancelled)
          else
            let bets' = event_active_bets s eventId in
            if length bets' = 0
            then (s, Inr \<lparr>fr_refundsProcessed = 0, fr_totalAmount = 0\<rparr>)
            else (foldl (refund_one s) s bets',
                  Inr \<lparr>fr_refundsProcessed = length bets',
                       fr_totalAmount = foldl (\<lambda>sum b. sum + b_amount b) 0 bets'\<rparr>))"

section \<open>EventService.updateEvent and EventService.cancelEvent\<close>

text \<open>
  The fields of \<open>UpdateEventInput\<close> that reach a modelled column. A field is written
  when it is truthy: a name that is present and not the empty string, a lock time or a
  status that is present.
\<close>

record update_input =
  in_name :: "string option"
  in_lockTime :: "nat option"
  in_status :: "event_status option"

definition apply_update :: "update_input \<Rightarrow> event_row \<Rightarrow> event_row" where
  "apply_update input e =
     (let e1 = (case in_name input of
                  Some n \<Rightarrow> if n \<noteq> [] then e\<lparr>e_name := n\<rparr> else e
                | None \<Rightarrow> e);
          e2 = (case in_lockTime input of Some t \<Rightarrow> e1\<lparr>e_lockTime := Some t\<rparr> | None \<Rightarrow> e1)
      in (case in_status input of Some st \<Rightarrow> e2\<lparr>e_status := st\<rparr> | None \<Rightarrow> e2))"

definition updateEvent :: "store \<Rightarrow> id \<Rightarrow> update_input \<Rightarrow> store \<times> (app_error + event_row)" where
  "updateEvent s eventId input =
     (case find (\<lambda>e. e_id e = eventId) (events s) of
        None \<Rightarrow> (s, Inl EventNotFound)
      | Some event \<Rightarrow>
          if e_status event \<in> set [completed, paid_out] then (s, Inl CannotUpdate)
          else
            let s' = set_event eventId (apply_update input) s in
            (case find (\<lambda>e. e_id e = eventId) (events s') of
               None \<Rightarrow> (s', Inl EventNotFound)
             | Some e' \<Rightarrow> (s', Inr e')))"

definition cancelEvent :: "store \<Rightarrow> id \<Rightarrow> store \<times> (app_error + event_row)" where
  "cancelEvent s eventId =
     (case find (\<lambda>e. e_id e = eventId) (events s) of
        None \<Rightarrow> (s, Inl EventNotFound)
      | Some event \<Rightarrow>
          if e_status event \<in> set [completed, paid_out, cancelled] then (s, Inl CannotCancel)
          else
            let s' = set_event eventId (\<lambda>e. e\<lparr>e_status := cancelled\<rparr>) s in
            (case find (\<lambda>e. e_id e = eventId) (events s') of
               None \<Rightarrow> (s', Inl EventNotFound)
             | Some e' \<Rightarrow> (s', Inr e')))"

section \<open>WalletService.requestWithdrawal and WalletService.processWithdrawal\<close>

text \<open>
  The collaborators are parameters: \<open>usdToSOL\<close> is the price conversion and
  \<open>sendSOL\<close>, \<open>sendUSDC\<close> the transfers, each returning \<open>None\<close> where the source's
  function throws. The request row keeps the wallet address that the source writes
  into, and reads back from, the \<open>method\<close> text.
\<close>

record withdrawal_result =
  wr_requestId :: id
  wr_cryptoAmount :: rat
  wr_balances :: UserBalances

definition requestWithdrawal ::
  "(rat \<Rightarrow> rat option) \<Rightarrow> store \<Rightarrow> id \<Rightarrow> rat \<Rightarrow> currency \<Rightarrow> string
     \<Rightarrow> store \<times> (app_error + withdrawal_result)" where
  "requestWithdrawal usdToSOL s userId amount currency' walletAddress =
     (let balances = getUserBalances s userId in
      if wonChips balances < amount then (s, Inl (InsufficientWonChips (wonChips balances)))
      else
        (case (if currency' = sol then usdToSOL amount else Some amount) of
           None \<Rightarrow> (s, Inl PriceFeedError)
         | Some cryptoAmount \<Rightarrow>
             let request = \<lparr>r_id = next_id s, r_userId = userId, r_amount = amount,
                            r_currency = (if currency' = sol then sol else usdc),
                            r_walletAddress = walletAddress, r_status = request_pending\<rparr>;
                 s1 = s\<lparr>requests := requests s @ [request], next_id := Suc (next_id s)\<rparr>;
                 currentBalance = getUserBalances s1 userId;
                 s2 = s1\<lparr>ledger := ledger s1 @
                        [\<lparr>l_userId = userId, l_currency = chips, l_amount = - amount,
                          l_balanceBefore = totalChips currentBalance,
                          l_balanceAfter = totalChips currentBalance - amount,
                          l_transactionType = cashout,
                          l_referenceType = Some cashout_request,
                          l_referenceId = Some (r_id request)\<rparr>]\<rparr>
             in (s2, Inr \<lparr>wr_requestId = r_id request, wr_cryptoAmount = cryptoAmount,
                          wr_balances = getUserBalances s2 userId\<rparr>)))"

definition set_request :: "id \<Rightarrow> request_status \<Rightarrow> store \<Rightarrow> store" where
  "set_request requestId st s =
     s\<lparr>requests := map (\<lambda>r. if r_id r = requestId then r\<lparr>r_status := st\<rparr> else r)
                       (requests s)\<rparr>"

text \<open>The \<open>try\<close> block up to the transfer: the signature, or \<open>None\<close> when it throws.\<close>

definition transfer ::
  "(rat \<Rightarrow> rat option) \<Rightarrow> (string \<Rightarrow> rat \<Rightarrow> string option) \<Rightarrow> (string \<Rightarrow> rat \<Rightarrow> string option)
     \<Rightarrow> request_row \<Rightarrow> string option" where
  "transfer usdToSOL sendSOL sendUSDC request =
     (if r_currency request = sol
      then (case usdToSOL (r_amount request) of
              None \<Rightarrow> None
            | Some solAmount \<Rightarrow> sendSOL (r_walletAddress request) solAmount)
      else sendUSDC (r_walletAddress request) (r_amount request))"

definition processWithdrawal ::
  "(rat \<Rightarrow> rat option) \<Rightarrow> (string \<Rightarrow> rat \<Rightarrow> string option) \<Rightarrow> (string \<Rightarrow> rat \<Rightarrow> string option)
     \<Rightarrow> store \<Rightarrow> id \<Rightarrow> id \<Rightarrow> store \<times> (app_error + string)" where
  "processWithdrawal usdToSOL sendSOL sendUSDC s requestId adminId =
     (case find (\<lambda>r. r_id r = requestId) (requests s) of
        None \<Rightarrow> (s, Inl RequestNotFound)
      | Some request \<Rightarrow>
          if r_status request \<noteq> request_pending then (s, Inl AlreadyProcessed)
          else
            let amount = r_amount request in
            (case transfer usdToSOL sendSOL sendUSDC request of
               Some signature \<Rightarrow> (set_request requestId request_completed s, Inr signature)
             | None \<Rightarrow>
                 let s1 = set_request requestId request_rejected s;
                     currentBalance = getUserBalances s1 (r_userId request);
                     s2 = s1\<lparr>ledger := ledger s1 @
                            [credit_row (r_userId request) amount (totalChips currentBalance)
                               bet_won (Some cashout_request_refund) (Some requestId)]\<rparr>
                 in (s2, Inl WithdrawalFailedRefunded)))"

section \<open>Sequences of service calls\<close>

text \<open>
  One call of a service of the store, with its arguments, and the store it leaves. The
  collaborators of the wallet service are fixed for a whole run.
\<close>

datatype op =
    OpAddChips id rat transaction_type
  | OpPlaceBet nat id id char rat
  | OpResolve id char id
  | OpDistribute id id
  | OpRefund id
  | OpUpdate id update_input
  | OpCancel id
  | OpRequestWithdrawal id rat currency string
  | OpProcessWithdrawal id id

fun step ::
  "(rat \<Rightarrow> rat option) \<Rightarrow> (string \<Rightarrow> rat \<Rightarrow> string option) \<Rightarrow> (string \<Rightarrow> rat \<Rightarrow> string option)
     \<Rightarrow> store \<Rightarrow> op \<Rightarrow> store" where
  "step usdToSOL sendSOL sendUSDC s (OpAddChips userId amount ttype) =
     fst (addChips s userId amount ttype None None)"
| "step usdToSOL sendSOL sendUSDC s (OpPlaceBet now userId eventId choiceLetter amount) =
     fst (placeBet s now userId eventId choiceLetter amount)"
| "step usdToSOL sendSOL sendUSDC s (OpResolve eventId winningSide adminId) =
     fst (resolveEvent s eventId winningSide adminId)"
| "step usdToSOL sendSOL sendUSDC s (OpDistribute eventId adminId) =
     fst (distributePayouts s eventId adminId)"
| "step usdToSOL sendSOL sendUSDC s (OpRefund eventId) = fst (refundEvent s eventId)"
| "step usdToSOL sendSOL sendUSDC s (OpUpdate eventId input) = fst (updateEvent s eventId input)"
| "step usdToSOL sendSOL sendUSDC s (OpCancel eventId) = fst (cancelEvent s eventId)"
| "step usdToSOL sendSOL sendUSDC s (OpRequestWithdrawal userId amount currency' walletAddress) =
     fst (requestWithdrawal usdToSOL s userId amount currency' walletAddress)"
| "step usdToSOL sendSOL sendUSDC s (OpProcessWithdrawal requestId adminId) =
     fst (processWithdrawal usdToSOL sendSOL sendUSDC s requestId adminId)"

definition run ::
  "(rat \<Rightarrow> rat option) \<Rightarrow> (string \<Rightarrow> rat \<Rightarrow> string option) \<Rightarrow> (string \<Rightarrow> rat \<Rightarrow> string option)
     \<Rightarrow> store \<Rightarrow> op list \<Rightarrow> store" where
  "run usdToSOL sendSOL sendUSDC s ops = foldl (step usdToSOL sendSOL sendUSDC) s ops"

section \<open>Properties of the specification, as predicates\<close>

text \<open>
  The running balance of the specification's ledger invariant: every row adds its
  signed amount to its balance before, never ends below zero, and starts from the
  balance the preceding row of the same user and currency ended with.
\<close>

fun chained :: "ledger_row list \<Rightarrow> bool" where
  "chained (x # y # rest) = (l_balanceBefore y = l_balanceAfter x \<and> chained (y # rest))"
| "chained _ = True"

definition row_balanced :: "ledger_row \<Rightarrow> bool" where
  "row_balanced l = (l_balanceAfter l = l_balanceBefore l + l_amount l \<and> 0 \<le> l_balanceAfter l)"

definition running_balance_consistent :: "store \<Rightarrow> id \<Rightarrow> currency \<Rightarrow> bool" where
  "running_balance_consistent s userId cur =
     (let entries = filter (\<lambda>l. l_userId l = userId \<and> l_currency l = cur) (ledger s)
      in list_all row_balanced entries \<and> chained entries)"



definition winning_bets :: "store \<Rightarrow> id \<Rightarrow> char \<Rightarrow> bet_row list" where
  "winning_bets s eventId w = filter (\<lambda>b. b_choiceLetter b = w) (event_active_bets s eventId)"

text \<open>
  The data model's invariant of the pools of an event: the pool of each of its choices
  is the sum of the active stakes on that choice.
\<close>

definition pool_consistent :: "store \<Rightarrow> id \<Rightarrow> bool" where
  "pool_consistent s eventId =
     list_all (\<lambda>c. c_totalPool c = sum_list (map b_amount (winning_bets s eventId (c_choiceLetter c))))
       (event_choices s eventId)"

definition settle_bet :: "id \<Rightarrow> char \<Rightarrow> bet_row \<Rightarrow> bet_row" where
  "settle_bet eventId w b =
     (if b_eventId b = eventId \<and> b_status b = bet_active
      then b\<lparr>b_status := (if b_choiceLetter b = w then bet_won_s else bet_lost)\<rparr> else b)"

definition refund_active :: "id \<Rightarrow> bet_row \<Rightarrow> bet_row" where
  "refund_active eventId b =
     (if b_eventId b = eventId \<and> b_status b = bet_active
      then b\<lparr>b_status := bet_refunded\<rparr> else b)"

text \<open>The won bucket as the scan of the ledger leaves it, before the clamp at 0.\<close>

definition won_scanned :: "store \<Rightarrow> id \<Rightarrow> rat" where
  "won_scanned s userId = wonChips (foldl scan_tx zero_balances (user_transactions s userId))"

definition event_statuses :: "store \<Rightarrow> id \<Rightarrow> event_status list" where
  "event_statuses s eventId = map e_status (filter (\<lambda>e. e_id e = eventId) (events s))"

text \<open>
  An event is settled when it exists, every row with its id is completed or paid out,
  and none of its bets is active.
\<close>

definition settled :: "store \<Rightarrow> id \<Rightarrow> bool" where
  "settled s eventId =
     (event_statuses s eventId \<noteq> []
      \<and> list_all (\<lambda>st. st = completed \<or> st = paid_out) (event_statuses s eventId)
      \<and> event_active_bets s eventId = [])"

definition complete_pending :: "id \<Rightarrow> id \<Rightarrow> payout_row \<Rightarrow> payout_row" where
  "complete_pending eventId adminId p =
     (if p_eventId p = eventId \<and> p_status p = payout_pending
      then p\<lparr>p_status := payout_completed, p_adminId := Some adminId\<rparr> else p)"

section \<open>Scenarios\<close>

definition coin_flip_event :: event_row where
  "coin_flip_event =
     \<lparr>e_id = 1, e_name = ''Coin Flip'', e_status = active, e_winningSide = None,
      e_lockTime = None, e_creatorCommission = 0.01\<rparr>"

definition empty_store :: store where
  "empty_store =
     \<lparr>users = [], ledger = [], events = [], choices = [], bets = [], payouts = [],
      requests = [], next_id = 1\<rparr>"

text \<open>Users 1 and 2, and the event Coin Flip (id 1, rake 1 percent) open with empty pools.\<close>

definition empty_market :: store where
  "empty_market =
     \<lparr>users = [1, 2], ledger = [], events = [coin_flip_event],
      choices = [\<lparr>c_eventId = 1, c_choiceLetter = CHR ''A'', c_totalPool = 0\<rparr>,
                 \<lparr>c_eventId = 1, c_choiceLetter = CHR ''B'', c_totalPool = 0\<rparr>],
      bets = [], payouts = [], requests = [], next_id = 2\<rparr>"

text \<open>
  Coin Flip after user 1 has deposited 1000 and staked it on A, and user 2 has deposited
  500 and staked it on B, with the rows those calls write.
\<close>

definition coin_flip :: store where
  "coin_flip =
     \<lparr>users = [1, 2],
      ledger = [credit_row 1 1000 0 deposit None None, credit_row 2 500 0 deposit None None,
                bet_ledger_row 1 1000 1000 2, bet_ledger_row 2 500 500 3],
      events = [coin_flip_event],
      choices = [\<lparr>c_eventId = 1, c_choiceLetter = CHR ''A'', c_totalPool = 1000\<rparr>,
                 \<lparr>c_eventId = 1, c_choiceLetter = CHR ''B'', c_totalPool = 500\<rparr>],
      bets = [\<lparr>b_id = 2, b_eventId = 1, b_userId = 1, b_choiceLetter = CHR ''A'',
                b_amount = 1000, b_status = bet_active\<rparr>,
              \<lparr>b_id = 3, b_eventId = 1, b_userId = 2, b_choiceLetter = CHR ''B'',
                b_amount = 500, b_status = bet_active\<rparr>],
      payouts = [], requests = [], next_id = 4\<rparr>"

text \<open>Coin Flip as admin 9's resolution for A leaves it: one payout pending for user 1.\<close>

definition coin_flip_resolved :: store where
  "coin_flip_resolved =
     coin_flip\<lparr>events := [coin_flip_event\<lparr>e_status := completed,
                                              e_winningSide := Some (CHR ''A'')\<rparr>],
       bets := [\<lparr>b_id = 2, b_eventId = 1, b_userId = 1, b_choiceLetter = CHR ''A'',
                 b_amount = 1000, b_status = bet_won_s\<rparr>,
                \<lparr>b_id = 3, b_eventId = 1, b_userId = 2, b_choiceLetter = CHR ''B'',
                 b_amount = 500, b_status = bet_lost\<rparr>],
       payouts := [\<lparr>p_id = 4, p_eventId = 1, p_userId = 1, p_payoutAmount = 1447.875,
                    p_status = payout_pending, p_adminId = Some 9\<rparr>],
       next_id := 5\<rparr>"

text \<open>Coin Flip with the only stake, 500 of user 2, on B: nothing is staked on A.\<close>

definition no_stake_on_A :: store where
  "no_stake_on_A =
     \<lparr>users = [1, 2],
      ledger = [credit_row 2 500 0 deposit None None, bet_ledger_row 2 500 500 2],
      events = [coin_flip_event],
      choices = [\<lparr>c_eventId = 1, c_choiceLetter = CHR ''A'', c_totalPool = 0\<rparr>,
                 \<lparr>c_eventId = 1, c_choiceLetter = CHR ''B'', c_totalPool = 500\<rparr>],
      bets = [\<lparr>b_id = 2, b_eventId = 1, b_userId = 2, b_choiceLetter = CHR ''B'',
                b_amount = 500, b_status = bet_active\<rparr>],
      payouts = [], requests = [], next_id = 3\<rparr>"

text \<open>The open market where user 1 holds 100 chips, or 5 chips, from one deposit.\<close>

definition market_100 :: store where
  "market_100 = empty_market\<lparr>ledger := [credit_row 1 100 0 deposit None None]\<rparr>"

definition market_5 :: store where
  "market_5 = empty_market\<lparr>ledger := [credit_row 1 5 0 deposit None None]\<rparr>"

text \<open>User 1 holds 5 chips and there is no event at all.\<close>

definition no_event_5 :: store where
  "no_event_5 = empty_store\<lparr>users := [1], ledger := [credit_row 1 5 0 deposit None None]\<rparr>"

text \<open>The market with Coin Flip cancelled.\<close>

definition cancelled_market :: store where
  "cancelled_market = empty_market\<lparr>events := [coin_flip_event\<lparr>e_status := cancelled\<rparr>]\<rparr>"


text \<open>An update that changes nothing but the status.\<close>

definition status_update :: "event_status \<Rightarrow> update_input" where
  "status_update st = \<lparr>in_name = None, in_lockTime = None, in_status = Some st\<rparr>"

text \<open>User 1 has won 100 chips.\<close>

definition winner_100 :: store where
  "winner_100 =
     empty_store\<lparr>users := [1],
       ledger := [credit_row 1 100 0 bet_won (Some event_payout) (Some 0)]\<rparr>"

section \<open>Auxiliary facts\<close>



lemma set_event_simps [simp]:
  "ledger (set_event e f s) = ledger s" "bets (set_event e f s) = bets s"
  "payouts (set_event e f s) = payouts s" "choices (set_event e f s) = choices s"
  "requests (set_event e f s) = requests s" "next_id (set_event e f s) = next_id s"
  "users (set_event e f s) = users s"
  "events (set_event e f s) = map (\<lambda>x. if e_id x = e then f x else x) (events s)"
  by (simp_all add: set_event_def)

lemma updateMany_bets_simps [simp]:
  "ledger (updateMany_bets P st s) = ledger s" "events (updateMany_bets P st s) = events s"
  "payouts (updateMany_bets P st s) = payouts s" "choices (updateMany_bets P st s) = choices s"
  "requests (updateMany_bets P st s) = requests s" "next_id (updateMany_bets P st s) = next_id s"
  "users (updateMany_bets P st s) = users s"
  "bets (updateMany_bets P st s) = map (\<lambda>b. if P b then b\<lparr>b_status := st\<rparr> else b) (bets s)"
  by (simp_all add: updateMany_bets_def)

lemma create_payouts_frame [simp]:
  "ledger (foldl (create_payout e a) s pcs) = ledger s"
  "bets (foldl (create_payout e a) s pcs) = bets s"
  "events (foldl (create_payout e a) s pcs) = events s"
  "choices (foldl (create_payout e a) s pcs) = choices s"
  "requests (foldl (create_payout e a) s pcs) = requests s"
  "users (foldl (create_payout e a) s pcs) = users s"
  by (induction pcs arbitrary: s; simp add: create_payout_def)+


lemma refund_bets_frame [simp]:
  "ledger (foldl refund_bet s rs) = ledger s"
  "payouts (foldl refund_bet s rs) = payouts s"
  "events (foldl refund_bet s rs) = events s"
  "choices (foldl refund_bet s rs) = choices s"
  "requests (foldl refund_bet s rs) = requests s"
  "next_id (foldl refund_bet s rs) = next_id s"
  "users (foldl refund_bet s rs) = users s"
  by (induction rs arbitrary: s; simp add: refund_bet_def)+

lemma refund_bets_bets:
  "bets (foldl refund_bet s rs) =
     map (\<lambda>b. if b_id b \<in> rf_betId ` set rs then b\<lparr>b_status := bet_refunded\<rparr> else b) (bets s)"
proof (induction rs arbitrary: s)
  case Nil
  then show ?case by simp
next
  case (Cons r rs)
  have one: "bets (refund_bet s r) =
      map (\<lambda>b. if b_id b = rf_betId r then b\<lparr>b_status := bet_refunded\<rparr> else b) (bets s)"
    by (simp add: refund_bet_def)
  show ?case
    by (auto simp add: Cons.IH one)
qed

lemma settle_compose:
  "map (\<lambda>b. if b_eventId b = e \<and> b_choiceLetter b \<noteq> w \<and> b_status b = bet_active
                then b\<lparr>b_status := bet_lost\<rparr> else b)
     (map (\<lambda>b. if b_eventId b = e \<and> b_choiceLetter b = w \<and> b_status b = bet_active
                then b\<lparr>b_status := bet_won_s\<rparr> else b) bs) = map (settle_bet e w) bs"
  by (auto simp: settle_bet_def)

lemma resolve_commit_frame:
  "ledger (resolve_commit e w a calc s) = ledger s"
  "choices (resolve_commit e w a calc s) = choices s"
  "requests (resolve_commit e w a calc s) = requests s"
  "users (resolve_commit e w a calc s) = users s"
  "events (resolve_commit e w a calc s) =
     map (\<lambda>x. if e_id x = e then x\<lparr>e_status := completed, e_winningSide := Some w\<rparr> else x) (events s)"
  by (simp_all add: resolve_commit_def Let_def)

lemma resolve_commit_statuses:
  "event_statuses (resolve_commit e w a calc s) e = map (\<lambda>x. completed) (event_statuses s e)"
  by (simp add: event_statuses_def resolve_commit_frame filter_map comp_def cong: map_cong)


lemma calculatePayouts_degenerate:
  assumes ev: "find (\<lambda>e. e_id e = eventId) (events s) = Some ev"
    and wc: "find (\<lambda>c. c_choiceLetter c = w) (event_choices s eventId) = Some wc"
    and pool: "c_totalPool wc = 0"
  shows "calculatePayouts s eventId w =
     Inr \<lparr>calc_payouts = [], calc_refunds = map refund_of (event_active_bets s eventId),
          calc_totalPaid = 0, calc_eventRakeAmount = None, calc_prizePoolRake = 0\<rparr>"
  using assms by (simp add: calculatePayouts_def Let_def)


lemma resolveEvent_open:
  assumes ev: "find (\<lambda>e. e_id e = eventId) (events s) = Some ev"
    and st: "e_status ev = active \<or> e_status ev = locked"
    and calc: "calculatePayouts s eventId w = Inr calc"
  shows "resolveEvent s eventId w adminId =
     (resolve_commit eventId w adminId calc s,
      Inr \<lparr>rr_payoutsCount = length (calc_payouts calc), rr_totalPayout = calc_totalPaid calc,
           rr_eventRake = calc_eventRakeAmount calc, rr_prizePoolRake = calc_prizePoolRake calc,
           rr_status = completed\<rparr>)"
  using st by (auto simp add: resolveEvent_def ev calc)

section \<open>Pari-mutuel settlement\<close>



section \<open>Resolution with nothing staked on the winner\<close>

lemma refund_after_settle:
  assumes ids: "distinct (map b_id bs)"
  shows "map (\<lambda>b. if b_id b \<in> b_id ` set (filter (\<lambda>b. b_eventId b = e \<and> b_status b = bet_active) bs)
                  then b\<lparr>b_status := bet_refunded\<rparr> else b)
           (map (settle_bet e w) bs) = map (refund_active e) bs"
proof -
  let ?act = "filter (\<lambda>b. b_eventId b = e \<and> b_status b = bet_active) bs"
  have inj: "inj_on b_id (set bs)"
    using ids by (simp add: distinct_map)
  have "(if b_id (settle_bet e w b) \<in> b_id ` set ?act
         then (settle_bet e w b)\<lparr>b_status := bet_refunded\<rparr> else settle_bet e w b)
        = refund_active e b" if b: "b \<in> set bs" for b
  proof (cases "b_eventId b = e \<and> b_status b = bet_active")
    case True
    then have "b \<in> set ?act" using b by simp
    then have "b_id b \<in> b_id ` set ?act" by (rule imageI)
    then show ?thesis using True by (simp add: settle_bet_def refund_active_def)
  next
    case False
    have "b_id b \<notin> b_id ` set ?act"
    proof
      assume "b_id b \<in> b_id ` set ?act"
      then obtain b' where b': "b' \<in> set ?act" "b_id b = b_id b'" by blast
      then have "b' \<in> set bs" by simp
      with inj b b'(2) have "b = b'" by (simp add: inj_on_def)
      with b'(1) False show False by simp
    qed
    then show ?thesis using False by (simp add: settle_bet_def refund_active_def)
  qed
  then show ?thesis by simp
qed

text \<open>
  Claim C3. Resolving an event that is active or locked, for a winning choice whose
  pool is 0, creates no payout row and writes no ledger row, reports no event rake and
  a prize pool rake of 0, computes one refund per active bet of the event with the
  bet's own stake as its amount, and leaves every bet that was active on the event
  refunded, all other bets as they were. Bet identifiers are the table's primary key.
\<close>

theorem resolve_degenerate:
  assumes ev: "find (\<lambda>e. e_id e = eventId) (events s) = Some ev"
    and st: "e_status ev = active \<or> e_status ev = locked"
    and wc: "find (\<lambda>c. c_choiceLetter c = w) (event_choices s eventId) = Some wc"
    and pool: "c_totalPool wc = 0"
    and ids: "distinct (map b_id (bets s))"
    and R: "resolveEvent s eventId w adminId = (s', r)"
  shows "\<exists>res calc. r = Inr res \<and> calculatePayouts s eventId w = Inr calc
       \<and> calc_payouts calc = [] \<and> rr_payoutsCount res = 0 \<and> rr_totalPayout res = 0
       \<and> payouts s' = payouts s \<and> ledger s' = ledger s
       \<and> rr_eventRake res = None \<and> rr_prizePoolRake res = 0
       \<and> calc_refunds calc = map refund_of (event_active_bets s eventId)
       \<and> map rf_amount (calc_refunds calc) = map b_amount (event_active_bets s eventId)
       \<and> bets s' = map (refund_active eventId) (bets s)"
proof -
  let ?calc = "\<lparr>calc_payouts = [], calc_refunds = map refund_of (event_active_bets s eventId),
          calc_totalPaid = 0, calc_eventRakeAmount = None, calc_prizePoolRake = 0\<rparr>"
  note calc = calculatePayouts_degenerate[OF ev wc pool]
  let ?res = "\<lparr>rr_payoutsCount = length (calc_payouts ?calc),
                rr_totalPayout = calc_totalPaid ?calc,
                rr_eventRake = calc_eventRakeAmount ?calc,
                rr_prizePoolRake = calc_prizePoolRake ?calc, rr_status = completed\<rparr>"
  from R have s': "s' = resolve_commit eventId w adminId ?calc s" and r: "r = Inr ?res"
    unfolding resolveEvent_open[OF ev st calc] by simp_all
  have pay: "payouts s' = payouts s" "ledger s' = ledger s"
    unfolding s' resolve_commit_def Let_def by simp_all
  have b1: "bets s' = map (\<lambda>b. if b_id b \<in> b_id ` set (event_active_bets s eventId)
                           then b\<lparr>b_status := bet_refunded\<rparr> else b)
                      (map (settle_bet eventId w) (bets s))"
    unfolding s' resolve_commit_def Let_def
    by (simp add: refund_bets_bets settle_compose image_image refund_of_def del: map_map)
  have b2: "bets s' = map (refund_active eventId) (bets s)"
    unfolding b1 event_active_bets_def by (rule refund_after_settle[OF ids])
  have am: "map rf_amount (map refund_of (event_active_bets s eventId))
      = map b_amount (event_active_bets s eventId)"
    by (simp add: refund_of_def)
  show ?thesis
    apply (rule exI[of _ ?res], rule exI[of _ ?calc])
    using r calc pay b2 am by simp
qed

text \<open>The instance: Coin Flip with 500 of user 2 on B only, resolved for A.\<close>

theorem no_stake_on_A_resolution:
  "\<exists>res. snd (resolveEvent no_stake_on_A 1 (CHR ''A'') 9) = Inr res
     \<and> rr_payoutsCount res = 0 \<and> rr_eventRake res = None \<and> rr_prizePoolRake res = 0
     \<and> payouts (fst (resolveEvent no_stake_on_A 1 (CHR ''A'') 9)) = []
     \<and> ledger (fst (resolveEvent no_stake_on_A 1 (CHR ''A'') 9)) = ledger no_stake_on_A
     \<and> calculatePayouts no_stake_on_A 1 (CHR ''A'') =
         Inr \<lparr>calc_payouts = [],
              calc_refunds = [\<lparr>rf_userId = 2, rf_amount = 500, rf_betId = 2\<rparr>],
              calc_totalPaid = 0, calc_eventRakeAmount = None, calc_prizePoolRake = 0\<rparr>
     \<and> bets (fst (resolveEvent no_stake_on_A 1 (CHR ''A'') 9)) =
         [\<lparr>b_id = 2, b_eventId = 1, b_userId = 2, b_choiceLetter = CHR ''B'',
            b_amount = 500, b_status = bet_refunded\<rparr>]"
proof -
  let ?s' = "fst (resolveEvent no_stake_on_A 1 (CHR ''A'') 9)"
  let ?r = "snd (resolveEvent no_stake_on_A 1 (CHR ''A'') 9)"
  let ?wc = "\<lparr>c_eventId = 1, c_choiceLetter = CHR ''A'', c_totalPool = 0\<rparr>"
  have h1: "find (\<lambda>e. e_id e = 1) (events no_stake_on_A) = Some coin_flip_event"
    by (simp add: no_stake_on_A_def coin_flip_event_def)
  have h2: "e_status coin_flip_event = active \<or> e_status coin_flip_event = locked"
    by (simp add: coin_flip_event_def)
  have h3: "find (\<lambda>c. c_choiceLetter c = CHR ''A'') (event_choices no_stake_on_A 1) = Some ?wc"
    by (simp add: no_stake_on_A_def event_choices_def)
  have h4: "c_totalPool ?wc = 0" by simp
  have h5: "distinct (map b_id (bets no_stake_on_A))"
    by (simp add: no_stake_on_A_def)
  have ab: "event_active_bets no_stake_on_A 1 =
     [\<lparr>b_id = 2, b_eventId = 1, b_userId = 2, b_choiceLetter = CHR ''B'',
            b_amount = 500, b_status = bet_active\<rparr>]"
    by (simp add: event_active_bets_def no_stake_on_A_def)
  from resolve_degenerate[OF h1 h2 h3 h4 h5, of 9 ?s' ?r]
  obtain res calc where "?r = Inr res" "calculatePayouts no_stake_on_A 1 (CHR ''A'') = Inr calc"
    "calc_payouts calc = []" "rr_payoutsCount res = 0" "payouts ?s' = payouts no_stake_on_A"
    "ledger ?s' = ledger no_stake_on_A" "rr_eventRake res = None" "rr_prizePoolRake res = 0"
    "calc_refunds calc = map refund_of (event_active_bets no_stake_on_A 1)"
    "bets ?s' = map (refund_active 1) (bets no_stake_on_A)"
    by auto
  moreover have "payouts no_stake_on_A = []" by (simp add: no_stake_on_A_def)
  moreover have "map (refund_active 1) (bets no_stake_on_A) =
         [\<lparr>b_id = 2, b_eventId = 1, b_userId = 2, b_choiceLetter = CHR ''B'',
            b_amount = 500, b_status = bet_refunded\<rparr>]"
    by (simp add: no_stake_on_A_def refund_active_def)
  moreover have "calculatePayouts no_stake_on_A 1 (CHR ''A'') =
         Inr \<lparr>calc_payouts = [],
              calc_refunds = [\<lparr>rf_userId = 2, rf_amount = 500, rf_betId = 2\<rparr>],
              calc_totalPaid = 0, calc_eventRakeAmount = None, calc_prizePoolRake = 0\<rparr>"
    unfolding calculatePayouts_degenerate[OF h1 h3 h4] ab by (simp add: refund_of_def)
  ultimately show ?thesis by auto
qed

section \<open>The ledger's running balance\<close>

lemmas scenario_defs =
  market_100_def market_5_def no_event_5_def empty_market_def empty_store_def
  coin_flip_event_def cancelled_market_def winner_100_def

lemmas balance_defs =
  getUserBalances_def user_transactions_def activeBets_sum_def zero_balances_def
  credit_row_def bet_ledger_row_def Let_def

text \<open>
  Claim C1. The code breaks the chain of the running balance. User 1 holds 100 chips
  from one deposit and stakes 60: the row written has balance 100 before and 40 after,
  and the ledger is still consistent. The next row of the user, a deposit of 10, is
  written with balance 100 before, not 40, because the total that
  \<open>getUserBalances\<close> computes leaves \<open>bet_placed\<close> rows out: the running balance of
  the user's chip ledger is no longer consistent.
\<close>

theorem ledger_chain_broken_after_bet:
  "running_balance_consistent market_100 1 chips
   \<and> running_balance_consistent (fst (placeBet market_100 0 1 1 (CHR ''A'') 60)) 1 chips
   \<and> map (\<lambda>l. (l_transactionType l, l_amount l, l_balanceBefore l, l_balanceAfter l))
        (ledger (fst (addChips (fst (placeBet market_100 0 1 1 (CHR ''A'') 60)) 1 10
                        deposit None None)))
      = [(deposit, 100, 0, 100), (bet_placed, - 60, 100, 40), (deposit, 10, 100, 110)]
   \<and> \<not> running_balance_consistent
          (fst (addChips (fst (placeBet market_100 0 1 1 (CHR ''A'') 60)) 1 10
                  deposit None None)) 1 chips"
  by (simp add: scenario_defs balance_defs placeBet_def addChips_def past_lock_def
        event_choices_def increment_pool_def running_balance_consistent_def row_balanced_def)

section \<open>Two bets against one balance\<close>

text \<open>
  Claim C7. Two calls of \<open>placeBet\<close> for 60 chips each by user 1, whose total is
  exactly 100, run one after the other: both succeed. The second call still reads a
  total of 100, since the total never counts the stake of the first; the user ends with
  120 chips locked against a total of 100.
\<close>

theorem two_bets_of_60_against_100_both_succeed:
  "\<exists>s1 r1 s2 r2.
      totalChips (getUserBalances market_100 1) = 100
    \<and> placeBet market_100 0 1 1 (CHR ''A'') 60 = (s1, Inr r1)
    \<and> totalChips (getUserBalances s1 1) = 100
    \<and> placeBet s1 1 1 1 (CHR ''A'') 60 = (s2, Inr r2)
    \<and> map b_amount (bets s2) = [60, 60] \<and> map b_status (bets s2) = [bet_active, bet_active]
    \<and> totalChips (res_balances r2) = 100 \<and> lockedChips (res_balances r2) = 120"
  by (simp add: scenario_defs balance_defs placeBet_def past_lock_def event_choices_def
        increment_pool_def)

section \<open>Insufficient balance\<close>

lemma placeBet_fails_unchanged:
  "snd (placeBet s now userId eventId choiceLetter amount) = Inl err
     \<Longrightarrow> fst (placeBet s now userId eventId choiceLetter amount) = s"
  by (auto simp add: placeBet_def Let_def split: option.splits if_splits)




section \<open>Balances of a user that does not exist\<close>

text \<open>
  Claim C9, amended. \<open>getUserBalances\<close> never fails, whether or not the user exists:
  it does not read the table of users. For every user id with no chip row in the
  ledger and no active bet it returns all balances 0. The not found error for a missing
  user is raised by the caller that looks the user up, \<open>UserService.getProfile\<close>.
\<close>

theorem getUserBalances_total:
  "(\<exists>b. getUserBalances_result s userId = Inr b)
   \<and> (user_transactions s userId = []
        \<and> filter (\<lambda>b. b_userId b = userId \<and> b_status b = bet_active) (bets s) = []
      \<longrightarrow> getUserBalances_result s userId = Inr zero_balances)
   \<and> (getProfile s userId = Inl UserNotFound) = (userId \<notin> set (users s))"
proof -
  have "(find (\<lambda>u. u = userId) (users s) = None) = (userId \<notin> set (users s))"
    by (auto simp add: find_None_iff)
  then show ?thesis
    by (auto simp add: getUserBalances_result_def getUserBalances_def activeBets_sum_def
          zero_balances_def getProfile_def split: option.splits)
qed

text \<open>The instance: user 1 of the open market has no row yet; user 7 does not exist.\<close>

theorem balances_of_new_user:
  "getUserBalances_result empty_market 1 = Inr zero_balances
   \<and> getProfile empty_market 1 = Inr zero_balances
   \<and> getProfile empty_market 7 = Inl UserNotFound"
proof -
  have "user_transactions empty_market 1 = []
     \<and> filter (\<lambda>b. b_userId b = 1 \<and> b_status b = bet_active) (bets empty_market) = []"
    by (simp add: user_transactions_def scenario_defs)
  with getUserBalances_total[of empty_market 1] getUserBalances_total[of empty_market 7]
  show ?thesis
    by (auto simp add: getProfile_def getUserBalances_result_def scenario_defs)
qed

text \<open>
  A user id that is not in the table of users gets the zero balances, not an error.
\<close>

theorem balances_of_missing_user:
  "7 \<notin> set (users empty_store)
   \<and> getUserBalances_result empty_store 7 = Inr zero_balances
   \<and> getUserBalances_result empty_store 7 \<noteq> Inl UserNotFound"
  by (simp add: getUserBalances_result_def scenario_defs balance_defs)

section \<open>Withdrawal hold and compensation\<close>



lemma won_scanned_cong:
  "ledger s' = ledger s \<Longrightarrow> won_scanned s' userId = won_scanned s userId"
  by (simp add: won_scanned_def user_transactions_def)


lemma user_transactions_set_request [simp]:
  "user_transactions (set_request i st s) userId = user_transactions s userId"
  by (simp add: user_transactions_def set_request_def)



section \<open>Distribution of payouts\<close>

lemma coin_flip_resolved_is_resolution:
  "fst (resolveEvent coin_flip 1 (CHR ''A'') 9) = coin_flip_resolved"
  by (simp add: resolveEvent_def calculatePayouts_def resolve_commit_def Let_def
        coin_flip_def coin_flip_resolved_def coin_flip_event_def event_choices_def
        event_active_bets_def winner_payout_def COMPANY_PRIZE_POOL_RAKE_def
        create_payout_def payout_of_def set_event_def updateMany_bets_def)

lemma update_by_keys:
  assumes "inj_on key (set xs)"
  shows "map (\<lambda>x. if key x \<in> key ` set (filter P xs) then f x else x) xs
       = map (\<lambda>x. if P x then f x else x) xs"
proof -
  have "(key x \<in> key ` set (filter P xs)) = P x" if "x \<in> set xs" for x
  proof
    assume "key x \<in> key ` set (filter P xs)"
    then obtain y where y: "y \<in> set xs" "P y" "key x = key y" by auto
    with assms that have "x = y" by (simp add: inj_on_def)
    with y show "P x" by simp
  next
    assume "P x"
    with that show "key x \<in> key ` set (filter P xs)" by auto
  qed
  then show ?thesis by simp
qed

lemma pay_all_frame [simp]:
  "bets (foldl (pay_one s0 a) s ps) = bets s"
  "events (foldl (pay_one s0 a) s ps) = events s"
  "choices (foldl (pay_one s0 a) s ps) = choices s"
  "requests (foldl (pay_one s0 a) s ps) = requests s"
  "next_id (foldl (pay_one s0 a) s ps) = next_id s"
  "users (foldl (pay_one s0 a) s ps) = users s"
  by (induction ps arbitrary: s; simp add: pay_one_def Let_def)+

lemma pay_all_ledger:
  "ledger (foldl (pay_one s0 a) s ps) =
     ledger s @ map (\<lambda>p. credit_row (p_userId p) (p_payoutAmount p)
                          (totalChips (getUserBalances s0 (p_userId p))) bet_won
                          (Some event_payout) (Some (p_id p))) ps"
proof (induction ps arbitrary: s)
  case Nil
  then show ?case by simp
next
  case (Cons p ps)
  have one: "ledger (pay_one s0 a s p) =
      ledger s @ [credit_row (p_userId p) (p_payoutAmount p)
                    (totalChips (getUserBalances s0 (p_userId p))) bet_won
                    (Some event_payout) (Some (p_id p))]"
    by (simp add: pay_one_def Let_def)
  show ?case by (simp add: Cons.IH one)
qed

lemma pay_all_payouts:
  "payouts (foldl (pay_one s0 a) s ps) =
     map (\<lambda>p. if p_id p \<in> p_id ` set ps
               then p\<lparr>p_status := payout_completed, p_adminId := Some a\<rparr> else p) (payouts s)"
proof (induction ps arbitrary: s)
  case Nil
  then show ?case by simp
next
  case (Cons q ps)
  have one: "payouts (pay_one s0 a s q) =
      map (\<lambda>p. if p_id p = p_id q
                then p\<lparr>p_status := payout_completed, p_adminId := Some a\<rparr> else p) (payouts s)"
    by (simp add: pay_one_def Let_def)
  show ?case by (auto simp add: Cons.IH one)
qed

text \<open>
  Claim C5. When \<open>distributePayouts\<close> succeeds on an event, it appends exactly one
  ledger row per payout that was pending on the event, in order, crediting the
  payout's amount to its user as won chips with a reference to the payout row; it
  marks exactly those payouts completed and the event paid out. Invoked again on the
  store it left, it finds no pending payout, raises the error of status 400 that says
  so, and leaves the store as it is: no payout is credited twice. Payout identifiers
  are the table's primary key.
\<close>

theorem distribute_twice:
  assumes first: "distributePayouts s eventId adminId = (s1, Inr res)"
    and ids: "distinct (map p_id (payouts s))"
  shows "(\<exists>new. ledger s1 = ledger s @ new
            \<and> list_all2 (\<lambda>l p. l_userId l = p_userId p \<and> l_currency l = chips
                  \<and> l_amount l = p_payoutAmount p \<and> l_transactionType l = bet_won
                  \<and> l_referenceType l = Some event_payout \<and> l_referenceId l = Some (p_id p))
                new (pending_payouts s eventId))
     \<and> dr_payoutsProcessed res = length (pending_payouts s eventId)
     \<and> payouts s1 = map (complete_pending eventId adminId) (payouts s)
     \<and> pending_payouts s1 eventId = []
     \<and> event_statuses s1 eventId = map (\<lambda>e. paid_out) (event_statuses s eventId)
     \<and> distributePayouts s1 eventId adminId' = (s1, Inl NoPendingPayouts)
     \<and> statusCode NoPendingPayouts = 400"
proof -
  let ?pend = "pending_payouts s eventId"
  let ?s1 = "foldl (pay_one s adminId) s ?pend"
  from first have s1: "s1 = set_event eventId (\<lambda>e. e\<lparr>e_status := paid_out\<rparr>) ?s1"
    and cnt: "dr_payoutsProcessed res = length ?pend"
    by (auto simp add: distributePayouts_def Let_def split: if_splits)
  let ?new = "map (\<lambda>p. credit_row (p_userId p) (p_payoutAmount p)
                          (totalChips (getUserBalances s (p_userId p))) bet_won
                          (Some event_payout) (Some (p_id p))) ?pend"
  have led: "ledger s1 = ledger s @ ?new"
    by (simp add: s1 pay_all_ledger)
  have rel: "list_all2 (\<lambda>l p. l_userId l = p_userId p \<and> l_currency l = chips
                  \<and> l_amount l = p_payoutAmount p \<and> l_transactionType l = bet_won
                  \<and> l_referenceType l = Some event_payout \<and> l_referenceId l = Some (p_id p))
                ?new ?pend"
    by (simp add: list_all2_map1 credit_row_def list_all2_same)
  have inj: "inj_on p_id (set (payouts s))"
    using ids by (simp add: distinct_map)
  have "payouts s1 = map (\<lambda>p. if p_id p \<in> p_id ` set (pending_payouts s eventId)
               then p\<lparr>p_status := payout_completed, p_adminId := Some adminId\<rparr> else p)
             (payouts s)"
    by (simp add: s1 pay_all_payouts)
  also have "\<dots> = map (\<lambda>p. if p_eventId p = eventId \<and> p_status p = payout_pending
               then p\<lparr>p_status := payout_completed, p_adminId := Some adminId\<rparr> else p)
             (payouts s)"
    unfolding pending_payouts_def by (rule update_by_keys[OF inj])
  also have "\<dots> = map (complete_pending eventId adminId) (payouts s)"
    by (simp add: complete_pending_def)
  finally have pays: "payouts s1 = map (complete_pending eventId adminId) (payouts s)" .
  have none: "pending_payouts s1 eventId = []"
  proof -
    have "\<not> (p_eventId (complete_pending eventId adminId p) = eventId
              \<and> p_status (complete_pending eventId adminId p) = payout_pending)" for p
      by (simp add: complete_pending_def)
    then show ?thesis
      unfolding pending_payouts_def pays by (simp add: filter_map comp_def)
  qed
  have evs: "event_statuses s1 eventId = map (\<lambda>e. paid_out) (event_statuses s eventId)"
    by (simp add: s1 event_statuses_def filter_map comp_def cong: map_cong)
  have again: "distributePayouts s1 eventId adminId' = (s1, Inl NoPendingPayouts)"
    by (simp add: distributePayouts_def none)
  from led rel have "\<exists>new. ledger s1 = ledger s @ new
            \<and> list_all2 (\<lambda>l p. l_userId l = p_userId p \<and> l_currency l = chips
                  \<and> l_amount l = p_payoutAmount p \<and> l_transactionType l = bet_won
                  \<and> l_referenceType l = Some event_payout \<and> l_referenceId l = Some (p_id p))
                new (pending_payouts s eventId)"
    by blast
  then show ?thesis
    apply (intro conjI)
    apply (assumption, rule cnt, rule pays, rule none, rule evs, rule again)
    apply simp
    done
qed

text \<open>The instance: the payout of the resolved Coin Flip, distributed twice.\<close>

theorem coin_flip_distributed_twice:
  "\<exists>s1 res. distributePayouts coin_flip_resolved 1 9 = (s1, Inr res)
     \<and> dr_payoutsProcessed res = 1
     \<and> map (\<lambda>l. (l_userId l, l_amount l, l_transactionType l, l_referenceId l))
          (drop (length (ledger coin_flip_resolved)) (ledger s1))
        = [(1, 1447.875, bet_won, Some 4)]
     \<and> map p_status (payouts s1) = [payout_completed]
     \<and> event_statuses s1 1 = [paid_out]
     \<and> distributePayouts s1 1 9 = (s1, Inl NoPendingPayouts)"
proof -
  let ?d = "distributePayouts coin_flip_resolved 1 9"
  define s1 where "s1 = fst ?d"
  define res where "res = projr (snd ?d)"
  have pend: "pending_payouts coin_flip_resolved 1 =
      [\<lparr>p_id = 4, p_eventId = 1, p_userId = 1, p_payoutAmount = 1447.875,
        p_status = payout_pending, p_adminId = Some 9\<rparr>]"
    by (simp add: pending_payouts_def coin_flip_resolved_def)
  have evs: "events (foldl (pay_one coin_flip_resolved 9) coin_flip_resolved
                (pending_payouts coin_flip_resolved 1))
      = [coin_flip_event\<lparr>e_status := completed, e_winningSide := Some (CHR ''A'')\<rparr>]"
    by (simp add: coin_flip_resolved_def)
  have first: "?d = (s1, Inr res)"
    unfolding s1_def res_def distributePayouts_def Let_def evs pend
    by (simp add: coin_flip_event_def pay_one_def Let_def coin_flip_resolved_def)
  have ids: "distinct (map p_id (payouts coin_flip_resolved))"
    by (simp add: coin_flip_resolved_def)
  have es: "event_statuses coin_flip_resolved 1 = [completed]"
    by (simp add: event_statuses_def coin_flip_resolved_def coin_flip_event_def)
  have ps: "map (complete_pending 1 9) (payouts coin_flip_resolved) =
      [\<lparr>p_id = 4, p_eventId = 1, p_userId = 1, p_payoutAmount = 1447.875,
        p_status = payout_completed, p_adminId = Some 9\<rparr>]"
    by (simp add: complete_pending_def coin_flip_resolved_def)
  from distribute_twice[OF first ids, of 9]
  obtain new where led: "ledger s1 = ledger coin_flip_resolved @ new"
    and rel: "list_all2 (\<lambda>l p. l_userId l = p_userId p \<and> l_currency l = chips
                  \<and> l_amount l = p_payoutAmount p \<and> l_transactionType l = bet_won
                  \<and> l_referenceType l = Some event_payout \<and> l_referenceId l = Some (p_id p))
                new (pending_payouts coin_flip_resolved 1)"
    and cnt: "dr_payoutsProcessed res = length (pending_payouts coin_flip_resolved 1)"
    and pays: "payouts s1 = map (complete_pending 1 9) (payouts coin_flip_resolved)"
    and st: "event_statuses s1 1 = map (\<lambda>e. paid_out) (event_statuses coin_flip_resolved 1)"
    and again: "distributePayouts s1 1 9 = (s1, Inl NoPendingPayouts)"
    by auto
  from rel obtain l where new: "new = [l]" and l: "l_userId l = 1" "l_amount l = 1447.875"
      "l_transactionType l = bet_won" "l_referenceId l = Some 4"
    unfolding pend by (auto simp add: list_all2_Cons2)
  have c1: "dr_payoutsProcessed res = 1" unfolding cnt pend by simp
  have c2: "map (\<lambda>l. (l_userId l, l_amount l, l_transactionType l, l_referenceId l))
          (drop (length (ledger coin_flip_resolved)) (ledger s1))
        = [(1, 1447.875, bet_won, Some 4)]"
    unfolding led new by (simp add: l)
  have c3: "map p_status (payouts s1) = [payout_completed]"
    unfolding pays ps by simp
  have c4: "event_statuses s1 1 = [paid_out]"
    unfolding st es by simp
  have "?d = (s1, Inr res)
     \<and> dr_payoutsProcessed res = 1
     \<and> map (\<lambda>l. (l_userId l, l_amount l, l_transactionType l, l_referenceId l))
          (drop (length (ledger coin_flip_resolved)) (ledger s1))
        = [(1, 1447.875, bet_won, Some 4)]
     \<and> map p_status (payouts s1) = [payout_completed]
     \<and> event_statuses s1 1 = [paid_out]
     \<and> distributePayouts s1 1 9 = (s1, Inl NoPendingPayouts)"
    by (intro conjI first c1 c2 c3 c4 again)
  then show ?thesis
    by (intro exI[where x = s1] exI[where x = res])
qed

section \<open>Event status transitions\<close>

lemma find_map_update:
  assumes "\<And>x. key (f x) = key x"
  shows "find (\<lambda>x. key x = k) (map (\<lambda>x. if key x = k then f x else x) xs)
       = map_option f (find (\<lambda>x. key x = k) xs)"
  by (induction xs) (simp_all add: assms)

lemma e_id_apply_update [simp]: "e_id (apply_update input e) = e_id e"
  by (simp add: apply_update_def Let_def split: option.splits)


lemma set_status_statuses:
  "event_statuses (set_event eventId (\<lambda>e. e\<lparr>e_status := st\<rparr>) s) eventId
     = map (\<lambda>e. st) (event_statuses s eventId)"
  by (simp add: event_statuses_def filter_map comp_def cong: map_cong)


lemma pay_all_statuses:
  "event_statuses (foldl (pay_one s0 a) s ps) eventId = event_statuses s eventId"
  by (simp add: event_statuses_def)

lemma updateEvent_result:
  assumes ev: "find (\<lambda>e. e_id e = eventId) (events s) = Some ev"
  shows "updateEvent s eventId input =
     (if e_status ev = completed \<or> e_status ev = paid_out then (s, Inl CannotUpdate)
      else (set_event eventId (apply_update input) s, Inr (apply_update input ev)))"
  by (simp add: updateEvent_def ev Let_def find_map_update)

lemma cancelEvent_result:
  assumes ev: "find (\<lambda>e. e_id e = eventId) (events s) = Some ev"
  shows "cancelEvent s eventId =
     (if e_status ev = completed \<or> e_status ev = paid_out \<or> e_status ev = cancelled
      then (s, Inl CannotCancel)
      else (set_event eventId (\<lambda>e. e\<lparr>e_status := cancelled\<rparr>) s,
            Inr (ev\<lparr>e_status := cancelled\<rparr>)))"
  by (simp add: cancelEvent_def ev Let_def find_map_update)

lemma updateEvent_fails_unchanged:
  "snd (updateEvent s eventId input) = Inl err \<Longrightarrow> fst (updateEvent s eventId input) = s"
  by (cases "find (\<lambda>e. e_id e = eventId) (events s)")
     (auto simp add: updateEvent_result split: if_splits, simp add: updateEvent_def)

lemma cancelEvent_fails_unchanged:
  "snd (cancelEvent s eventId) = Inl err \<Longrightarrow> fst (cancelEvent s eventId) = s"
  by (cases "find (\<lambda>e. e_id e = eventId) (events s)")
     (auto simp add: cancelEvent_result split: if_splits, simp add: cancelEvent_def)

lemma resolveEvent_fails_unchanged:
  "snd (resolveEvent s eventId w adminId) = Inl err \<Longrightarrow> fst (resolveEvent s eventId w adminId) = s"
  by (auto simp add: resolveEvent_def split: option.splits if_splits sum.splits)

lemma distributePayouts_fails_unchanged:
  "snd (distributePayouts s eventId adminId) = Inl err
     \<Longrightarrow> fst (distributePayouts s eventId adminId) = s"
  by (auto simp add: distributePayouts_def Let_def split: if_splits)




section \<open>A degenerate resolution is never refunded\<close>

lemma refund_all_frame [simp]:
  "events (foldl (refund_one s0) s bs) = events s"
  "payouts (foldl (refund_one s0) s bs) = payouts s"
  "choices (foldl (refund_one s0) s bs) = choices s"
  "requests (foldl (refund_one s0) s bs) = requests s"
  "next_id (foldl (refund_one s0) s bs) = next_id s"
  "users (foldl (refund_one s0) s bs) = users s"
  by (induction bs arbitrary: s; simp add: refund_one_def Let_def)+

lemma refund_all_bets:
  "bets (foldl (refund_one s0) s bs) =
     map (\<lambda>b. if b_id b \<in> b_id ` set bs then b\<lparr>b_status := bet_refunded\<rparr> else b) (bets s)"
proof (induction bs arbitrary: s)
  case Nil
  then show ?case by simp
next
  case (Cons x bs)
  have one: "bets (refund_one s0 s x) =
      map (\<lambda>b. if b_id b = b_id x then b\<lparr>b_status := bet_refunded\<rparr> else b) (bets s)"
    by (simp add: refund_one_def Let_def)
  show ?case by (auto simp add: Cons.IH one)
qed

lemma resolve_commit_bets:
  "bets (resolve_commit e w a calc s) =
     map (\<lambda>b. if b_id b \<in> rf_betId ` set (calc_refunds calc)
               then b\<lparr>b_status := bet_refunded\<rparr> else b)
       (map (settle_bet e w) (bets s))"
  by (simp add: resolve_commit_def Let_def refund_bets_bets settle_compose del: map_map)

lemma no_active_after_map:
  assumes "\<And>b. b_eventId (g b) = b_eventId b"
    and "\<And>b. b_status (g b) = bet_active \<Longrightarrow> b_status b = bet_active"
    and "filter (\<lambda>b. b_eventId b = e \<and> b_status b = bet_active) bs = []"
  shows "filter (\<lambda>b. b_eventId b = e \<and> b_status b = bet_active) (map g bs) = []"
  using assms by (auto simp add: filter_empty_conv)

lemma settle_bet_keeps [simp]:
  "b_eventId (settle_bet e w b) = b_eventId b"
  "b_id (settle_bet e w b) = b_id b"
  by (simp_all add: settle_bet_def)

lemma settle_bet_active:
  "b_status (settle_bet e w b) = bet_active \<Longrightarrow> b_status b = bet_active"
  by (simp add: settle_bet_def split: if_splits)

lemma filter_other_event:
  assumes "e' \<noteq> e" and "\<And>x. e_id (f x) = e_id x"
  shows "filter (\<lambda>x. e_id x = e) (map (\<lambda>x. if e_id x = e' then f x else x) xs)
       = filter (\<lambda>x. e_id x = e) xs"
  using assms by (induction xs) auto

lemma event_statuses_other:
  assumes "e' \<noteq> e" and "\<And>x. e_id (f x) = e_id x"
  shows "event_statuses (set_event e' f s) e = event_statuses s e"
  by (simp add: event_statuses_def filter_other_event assms)

lemma event_statuses_cong:
  "events s' = events s \<Longrightarrow> event_statuses s' e = event_statuses s e"
  by (simp add: event_statuses_def)

lemma event_active_bets_cong:
  "bets s' = bets s \<Longrightarrow> event_active_bets s' e = event_active_bets s e"
  by (simp add: event_active_bets_def)

lemma settled_cong:
  "events s' = events s \<Longrightarrow> bets s' = bets s \<Longrightarrow> settled s' e = settled s e"
  by (simp add: settled_def event_statuses_def event_active_bets_def)

lemma settled_found:
  assumes "settled s e"
  shows "\<exists>x. find (\<lambda>x. e_id x = e) (events s) = Some x
           \<and> (e_status x = completed \<or> e_status x = paid_out)"
proof -
  from assms have ne: "filter (\<lambda>x. e_id x = e) (events s) \<noteq> []"
    and all: "\<forall>x \<in> set (events s). e_id x = e \<longrightarrow> e_status x = completed \<or> e_status x = paid_out"
    by (auto simp add: settled_def event_statuses_def list_all_iff)
  from ne obtain x where "find (\<lambda>x. e_id x = e) (events s) = Some x"
    by (cases "find (\<lambda>x. e_id x = e) (events s)") (auto simp add: find_None_iff filter_empty_conv)
  moreover from this have "x \<in> set (events s) \<and> e_id x = e"
    by (auto simp add: find_Some_iff)
  ultimately show ?thesis using all by blast
qed

lemma refundEvent_not_cancelled:
  assumes "find (\<lambda>x. e_id x = e) (events s) = Some x" and "e_status x \<noteq> cancelled"
  shows "refundEvent s e = (s, Inl MustBeCancelled)"
  using assms by (simp add: refundEvent_def)

lemma settled_refund_fails:
  assumes "settled s e"
  shows "refundEvent s e = (s, Inl MustBeCancelled)"
proof -
  from settled_found[OF assms] obtain x where "find (\<lambda>x. e_id x = e) (events s) = Some x"
    and "e_status x = completed \<or> e_status x = paid_out" by blast
  then show ?thesis by (auto simp add: refundEvent_def)
qed

lemma settled_placeBet:
  assumes "settled s e"
  shows "settled (fst (placeBet s now u e' c amt)) e"
proof (cases "snd (placeBet s now u e' c amt)")
  case (Inl err)
  then show ?thesis using assms by (simp add: placeBet_fails_unchanged)
next
  case (Inr res)
  from settled_found[OF assms] obtain x where x: "find (\<lambda>x. e_id x = e) (events s) = Some x"
    "e_status x = completed \<or> e_status x = paid_out" by blast
  have ne: "e' \<noteq> e"
  proof
    assume "e' = e"
    with x have "\<exists>err. snd (placeBet s now u e' c amt) = Inl err"
      by (auto simp add: placeBet_def)
    with Inr show False by simp
  qed
  from Inr have ev: "events (fst (placeBet s now u e' c amt)) = events s"
    and bs: "\<exists>b. bets (fst (placeBet s now u e' c amt)) = bets s @ [b] \<and> b_eventId b = e'"
    by (auto simp add: placeBet_def Let_def split: option.splits if_splits)
  from bs ne have "event_active_bets (fst (placeBet s now u e' c amt)) e = event_active_bets s e"
    by (auto simp add: event_active_bets_def)
  with assms ev show ?thesis by (simp add: settled_def event_statuses_def)
qed

lemma settled_resolve:
  assumes "settled s e"
  shows "settled (fst (resolveEvent s e' w a)) e"
proof (cases "snd (resolveEvent s e' w a)")
  case (Inl err)
  then show ?thesis using assms by (simp add: resolveEvent_fails_unchanged)
next
  case (Inr res)
  from settled_found[OF assms] obtain x where x: "find (\<lambda>x. e_id x = e) (events s) = Some x"
    "e_status x = completed \<or> e_status x = paid_out" by blast
  have ne: "e' \<noteq> e"
  proof
    assume "e' = e"
    with x have "\<exists>err. snd (resolveEvent s e' w a) = Inl err"
      by (auto simp add: resolveEvent_def)
    with Inr show False by simp
  qed
  from Inr obtain calc where s': "fst (resolveEvent s e' w a) = resolve_commit e' w a calc s"
    by (auto simp add: resolveEvent_def split: option.splits if_splits sum.splits)
  have st: "event_statuses (resolve_commit e' w a calc s) e = event_statuses s e"
    by (simp add: event_statuses_def resolve_commit_frame filter_other_event ne)
  from assms have none: "filter (\<lambda>b. b_eventId b = e \<and> b_status b = bet_active) (bets s) = []"
    by (simp add: settled_def event_active_bets_def)
  have "filter (\<lambda>b. b_eventId b = e \<and> b_status b = bet_active)
          (map (settle_bet e' w) (bets s)) = []"
    by (rule no_active_after_map[OF _ _ none]) (simp_all add: settle_bet_active)
  then have "filter (\<lambda>b. b_eventId b = e \<and> b_status b = bet_active)
          (bets (resolve_commit e' w a calc s)) = []"
    unfolding resolve_commit_bets
    by (rule no_active_after_map[rotated 2]) (simp_all split: if_splits)
  with assms st show ?thesis
    by (simp add: s' settled_def event_active_bets_def)
qed

lemma settled_distribute:
  assumes "settled s e"
  shows "settled (fst (distributePayouts s e' a)) e"
proof (cases "snd (distributePayouts s e' a)")
  case (Inl err)
  then show ?thesis using assms by (simp add: distributePayouts_fails_unchanged)
next
  case (Inr res)
  then have s': "fst (distributePayouts s e' a) =
      set_event e' (\<lambda>x. x\<lparr>e_status := paid_out\<rparr>) (foldl (pay_one s a) s (pending_payouts s e'))"
    by (auto simp add: distributePayouts_def Let_def split: if_splits)
  have bs: "event_active_bets (fst (distributePayouts s e' a)) e = event_active_bets s e"
    by (simp add: s' event_active_bets_def)
  show ?thesis
  proof (cases "e' = e")
    case True
    have "event_statuses (set_event e' (\<lambda>x. x\<lparr>e_status := paid_out\<rparr>)
             (foldl (pay_one s a) s (pending_payouts s e'))) e'
        = map (\<lambda>x. paid_out) (event_statuses s e')"
      by (simp add: set_status_statuses pay_all_statuses)
    then have "event_statuses (fst (distributePayouts s e' a)) e = map (\<lambda>x. paid_out) (event_statuses s e)"
      using s' True by simp
    with assms bs show ?thesis by (simp add: settled_def list_all_iff)
  next
    case False
    have "event_statuses (fst (distributePayouts s e' a)) e = event_statuses s e"
      by (simp add: s' event_statuses_other[OF False] pay_all_statuses)
    with assms bs show ?thesis by (simp add: settled_def)
  qed
qed

lemma settled_refund:
  assumes "settled s e"
  shows "settled (fst (refundEvent s e')) e"
proof (cases "snd (refundEvent s e')")
  case (Inl err)
  then have "fst (refundEvent s e') = s"
    by (auto simp add: refundEvent_def Let_def split: option.splits if_splits)
  then show ?thesis using assms by simp
next
  case (Inr res)
  then have "fst (refundEvent s e') = s
      \<or> fst (refundEvent s e') = foldl (refund_one s) s (event_active_bets s e')"
    by (auto simp add: refundEvent_def Let_def split: option.splits if_splits)
  then show ?thesis
  proof
    assume "fst (refundEvent s e') = s"
    then show ?thesis using assms by simp
  next
    assume s': "fst (refundEvent s e') = foldl (refund_one s) s (event_active_bets s e')"
    from assms have none: "filter (\<lambda>b. b_eventId b = e \<and> b_status b = bet_active) (bets s) = []"
      by (simp add: settled_def event_active_bets_def)
    have "filter (\<lambda>b. b_eventId b = e \<and> b_status b = bet_active)
            (bets (foldl (refund_one s) s (event_active_bets s e'))) = []"
      unfolding refund_all_bets
      by (rule no_active_after_map[OF _ _ none]) (simp_all split: if_splits)
    with assms show ?thesis
      by (simp add: s' settled_def event_active_bets_def event_statuses_def)
  qed
qed

lemma settled_update:
  assumes "settled s e"
  shows "settled (fst (updateEvent s e' input)) e"
proof (cases "snd (updateEvent s e' input)")
  case (Inl err)
  then show ?thesis using assms by (simp add: updateEvent_fails_unchanged)
next
  case (Inr res)
  from settled_found[OF assms] obtain x where x: "find (\<lambda>x. e_id x = e) (events s) = Some x"
    "e_status x = completed \<or> e_status x = paid_out" by blast
  have ne: "e' \<noteq> e"
  proof
    assume "e' = e"
    with x Inr show False by (auto simp add: updateEvent_result)
  qed
  from Inr have s': "fst (updateEvent s e' input) = set_event e' (apply_update input) s"
    by (auto simp add: updateEvent_def Let_def split: option.splits if_splits)
  have "event_statuses (fst (updateEvent s e' input)) e = event_statuses s e"
    by (simp add: s' event_statuses_other[OF ne])
  with assms show ?thesis by (simp add: s' settled_def event_active_bets_def)
qed

lemma settled_cancel:
  assumes "settled s e"
  shows "settled (fst (cancelEvent s e')) e"
proof (cases "snd (cancelEvent s e')")
  case (Inl err)
  then show ?thesis using assms by (simp add: cancelEvent_fails_unchanged)
next
  case (Inr res)
  from settled_found[OF assms] obtain x where x: "find (\<lambda>x. e_id x = e) (events s) = Some x"
    "e_status x = completed \<or> e_status x = paid_out" by blast
  have ne: "e' \<noteq> e"
  proof
    assume "e' = e"
    with x Inr show False by (auto simp add: cancelEvent_result)
  qed
  from Inr have s': "fst (cancelEvent s e') = set_event e' (\<lambda>x. x\<lparr>e_status := cancelled\<rparr>) s"
    by (auto simp add: cancelEvent_def Let_def split: option.splits if_splits)
  have "event_statuses (fst (cancelEvent s e')) e = event_statuses s e"
    by (simp add: s' event_statuses_other[OF ne])
  with assms show ?thesis by (simp add: s' settled_def event_active_bets_def)
qed

lemma settled_step:
  assumes "settled s e"
  shows "settled (step U S1 S2 s op) e"
proof (cases op)
  case (OpAddChips u amt tt)
  have "settled (fst (addChips s u amt tt None None)) e = settled s e"
    by (rule settled_cong) (simp_all add: addChips_def Let_def)
  with assms OpAddChips show ?thesis by simp
next
  case (OpPlaceBet now u e' c amt)
  with settled_placeBet[OF assms] show ?thesis by simp
next
  case (OpResolve e' w a)
  with settled_resolve[OF assms] show ?thesis by simp
next
  case (OpDistribute e' a)
  with settled_distribute[OF assms] show ?thesis by simp
next
  case (OpRefund e')
  with settled_refund[OF assms] show ?thesis by simp
next
  case (OpUpdate e' input)
  with settled_update[OF assms] show ?thesis by simp
next
  case (OpCancel e')
  with settled_cancel[OF assms] show ?thesis by simp
next
  case (OpRequestWithdrawal u amt cur addr)
  have "settled (fst (requestWithdrawal U s u amt cur addr)) e = settled s e"
    by (rule settled_cong)
       (auto simp add: requestWithdrawal_def Let_def split: option.splits if_splits)
  with assms OpRequestWithdrawal show ?thesis by simp
next
  case (OpProcessWithdrawal rid a)
  have "settled (fst (processWithdrawal U S1 S2 s rid a)) e = settled s e"
    by (rule settled_cong)
       (auto simp add: processWithdrawal_def Let_def set_request_def split: option.splits if_splits)
  with assms OpProcessWithdrawal show ?thesis by simp
qed

lemma settled_run:
  "settled s e \<Longrightarrow> settled (run U S1 S2 s ops) e"
  unfolding run_def by (induction ops arbitrary: s) (simp_all add: settled_step)

text \<open>
  Claim C10. Resolving an event that is active or locked for a winning choice whose
  pool is 0 leaves the event completed, not cancelled, marks every bet that was active
  on it refunded, and writes no ledger row. \<open>refundEvent\<close> fails with the error of
  status 400 for every event that exists and is not cancelled, and returns the store
  unchanged. After the degenerate resolution the event stays completed or paid out and
  without an active bet through every sequence of service calls, so \<open>refundEvent\<close>
  for it fails at every later moment and the credits for the refunded stakes are never
  written.
\<close>

theorem degenerate_resolution_never_refunded:
  assumes ev: "find (\<lambda>e. e_id e = eventId) (events s) = Some ev"
    and st: "e_status ev = active \<or> e_status ev = locked"
    and wc: "find (\<lambda>c. c_choiceLetter c = w) (event_choices s eventId) = Some wc"
    and pool: "c_totalPool wc = 0"
    and R: "resolveEvent s eventId w adminId = (s', r)"
  shows "(\<exists>res. r = Inr res \<and> rr_status res = completed)
     \<and> event_statuses s' eventId = map (\<lambda>e. completed) (event_statuses s eventId)
     \<and> list_all2 (\<lambda>b' b. b_eventId b = eventId \<and> b_status b = bet_active
                        \<longrightarrow> b' = b\<lparr>b_status := bet_refunded\<rparr>) (bets s') (bets s)
     \<and> ledger s' = ledger s
     \<and> settled s' eventId
     \<and> refundEvent s' eventId = (s', Inl MustBeCancelled)
     \<and> statusCode MustBeCancelled = 400
     \<and> (\<forall>ops. settled (run usdToSOL sendSOL sendUSDC s' ops) eventId
            \<and> refundEvent (run usdToSOL sendSOL sendUSDC s' ops) eventId
                = (run usdToSOL sendSOL sendUSDC s' ops, Inl MustBeCancelled))
     \<and> (\<forall>t e x. find (\<lambda>y. e_id y = e) (events t) = Some x \<and> e_status x \<noteq> cancelled
            \<longrightarrow> refundEvent t e = (t, Inl MustBeCancelled))"
proof -
  let ?calc = "\<lparr>calc_payouts = [], calc_refunds = map refund_of (event_active_bets s eventId),
          calc_totalPaid = 0, calc_eventRakeAmount = None, calc_prizePoolRake = 0\<rparr>"
  note calc = calculatePayouts_degenerate[OF ev wc pool]
  from R have s': "s' = resolve_commit eventId w adminId ?calc s"
    and r: "\<exists>res. r = Inr res \<and> rr_status res = completed"
    unfolding resolveEvent_open[OF ev st calc] by auto
  have sts: "event_statuses s' eventId = map (\<lambda>e. completed) (event_statuses s eventId)"
    unfolding s' by (rule resolve_commit_statuses)
  have led: "ledger s' = ledger s"
    unfolding s' by (simp add: resolve_commit_frame)
  have bs: "bets s' = map (\<lambda>b. if b_id b \<in> b_id ` set (event_active_bets s eventId)
                           then b\<lparr>b_status := bet_refunded\<rparr> else b)
                      (map (settle_bet eventId w) (bets s))"
    unfolding s' resolve_commit_bets by (simp add: image_image refund_of_def del: map_map)
  have each: "b_eventId b = eventId \<and> b_status b = bet_active \<longrightarrow>
        (if b_id (settle_bet eventId w b) \<in> b_id ` set (event_active_bets s eventId)
         then (settle_bet eventId w b)\<lparr>b_status := bet_refunded\<rparr> else settle_bet eventId w b)
        = b\<lparr>b_status := bet_refunded\<rparr>" if "b \<in> set (bets s)" for b
  proof
    assume a: "b_eventId b = eventId \<and> b_status b = bet_active"
    with that have "b \<in> set (event_active_bets s eventId)"
      by (simp add: event_active_bets_def)
    then have "b_id b \<in> b_id ` set (event_active_bets s eventId)" by (rule imageI)
    then show "(if b_id (settle_bet eventId w b) \<in> b_id ` set (event_active_bets s eventId)
         then (settle_bet eventId w b)\<lparr>b_status := bet_refunded\<rparr> else settle_bet eventId w b)
        = b\<lparr>b_status := bet_refunded\<rparr>"
      using a by (simp add: settle_bet_def)
  qed
  have rel: "list_all2 (\<lambda>b' b. b_eventId b = eventId \<and> b_status b = bet_active
                        \<longrightarrow> b' = b\<lparr>b_status := bet_refunded\<rparr>) (bets s') (bets s)"
    unfolding bs list_all2_map1 list_all2_same using each by blast
  have noact: "event_active_bets s' eventId = []"
  proof -
    have "\<not> (b_eventId b' = eventId \<and> b_status b' = bet_active)" if "b' \<in> set (bets s')" for b'
    proof -
      from that obtain b where b: "b \<in> set (bets s)"
        and b': "b' = (if b_id (settle_bet eventId w b) \<in> b_id ` set (event_active_bets s eventId)
                      then (settle_bet eventId w b)\<lparr>b_status := bet_refunded\<rparr>
                      else settle_bet eventId w b)"
        unfolding bs by auto
      show ?thesis
      proof (cases "b_eventId b = eventId \<and> b_status b = bet_active")
        case True
        with each[OF b] b' show ?thesis by simp
      next
        case False
        then show ?thesis unfolding b' by (auto simp add: settle_bet_def)
      qed
    qed
    then show ?thesis by (simp add: event_active_bets_def filter_empty_conv)
  qed
  have ne: "event_statuses s eventId \<noteq> []"
    using ev by (auto simp add: event_statuses_def filter_empty_conv find_Some_iff)
  have settled: "settled s' eventId"
    using ne noact by (simp add: settled_def sts list_all_iff)
  have run: "\<forall>ops. settled (run usdToSOL sendSOL sendUSDC s' ops) eventId
            \<and> refundEvent (run usdToSOL sendSOL sendUSDC s' ops) eventId
                = (run usdToSOL sendSOL sendUSDC s' ops, Inl MustBeCancelled)"
    using settled_run[OF settled] settled_refund_fails by blast
  have gen: "\<forall>t e x. find (\<lambda>y. e_id y = e) (events t) = Some x \<and> e_status x \<noteq> cancelled
            \<longrightarrow> refundEvent t e = (t, Inl MustBeCancelled)"
    using refundEvent_not_cancelled by blast
  show ?thesis
    apply (intro conjI)
    apply (rule r, rule sts, rule rel, rule led, rule settled,
           rule settled_refund_fails[OF settled], simp, rule run, rule gen)
    done
qed

text \<open>
  The instance: Coin Flip with nothing staked on A, resolved for A; then a cancel, an
  update to cancelled and a refund are tried, and the refund still fails.
\<close>

theorem no_stake_on_A_never_refunded:
  "event_statuses (fst (resolveEvent no_stake_on_A 1 (CHR ''A'') 9)) 1 = [completed]
   \<and> map b_status (bets (fst (resolveEvent no_stake_on_A 1 (CHR ''A'') 9))) = [bet_refunded]
   \<and> ledger (fst (resolveEvent no_stake_on_A 1 (CHR ''A'') 9)) = ledger no_stake_on_A
   \<and> refundEvent (fst (resolveEvent no_stake_on_A 1 (CHR ''A'') 9)) 1
        = (fst (resolveEvent no_stake_on_A 1 (CHR ''A'') 9), Inl MustBeCancelled)
   \<and> refundEvent
         (run Some (\<lambda>a b. None) (\<lambda>a b. None) (fst (resolveEvent no_stake_on_A 1 (CHR ''A'') 9))
            [OpCancel 1, OpUpdate 1 (status_update cancelled), OpRefund 1]) 1
        = (run Some (\<lambda>a b. None) (\<lambda>a b. None) (fst (resolveEvent no_stake_on_A 1 (CHR ''A'') 9))
            [OpCancel 1, OpUpdate 1 (status_update cancelled), OpRefund 1],
           Inl MustBeCancelled)"
proof -
  let ?s' = "fst (resolveEvent no_stake_on_A 1 (CHR ''A'') 9)"
  let ?r = "snd (resolveEvent no_stake_on_A 1 (CHR ''A'') 9)"
  let ?wc = "\<lparr>c_eventId = 1, c_choiceLetter = CHR ''A'', c_totalPool = 0\<rparr>"
  let ?b = "\<lparr>b_id = 2, b_eventId = 1, b_userId = 2, b_choiceLetter = CHR ''B'',
            b_amount = 500, b_status = bet_active\<rparr>"
  have h1: "find (\<lambda>e. e_id e = 1) (events no_stake_on_A) = Some coin_flip_event"
    by (simp add: no_stake_on_A_def coin_flip_event_def)
  have h2: "e_status coin_flip_event = active \<or> e_status coin_flip_event = locked"
    by (simp add: coin_flip_event_def)
  have h3: "find (\<lambda>c. c_choiceLetter c = CHR ''A'') (event_choices no_stake_on_A 1) = Some ?wc"
    by (simp add: no_stake_on_A_def event_choices_def)
  have h4: "c_totalPool ?wc = 0" by simp
  have es: "event_statuses no_stake_on_A 1 = [active]"
    by (simp add: event_statuses_def no_stake_on_A_def coin_flip_event_def)
  have bs: "bets no_stake_on_A = [?b]"
    by (simp add: no_stake_on_A_def)
  from degenerate_resolution_never_refunded[OF h1 h2 h3 h4, of 9 ?s' ?r Some "\<lambda>a b. None" "\<lambda>a b. None"]
  have a: "event_statuses ?s' 1 = map (\<lambda>e. completed) (event_statuses no_stake_on_A 1)"
    and b: "list_all2 (\<lambda>b' b. b_eventId b = 1 \<and> b_status b = bet_active
                        \<longrightarrow> b' = b\<lparr>b_status := bet_refunded\<rparr>) (bets ?s') (bets no_stake_on_A)"
    and c: "ledger ?s' = ledger no_stake_on_A"
    and d: "refundEvent ?s' 1 = (?s', Inl MustBeCancelled)"
    and e: "\<forall>ops. refundEvent (run Some (\<lambda>a b. None) (\<lambda>a b. None) ?s' ops) 1
                = (run Some (\<lambda>a b. None) (\<lambda>a b. None) ?s' ops, Inl MustBeCancelled)"
    by simp_all
  have a': "event_statuses ?s' 1 = [completed]" unfolding a es by simp
  from b have b': "map b_status (bets ?s') = [bet_refunded]"
    unfolding bs by (auto simp add: list_all2_Cons2)
  from a' b' c d e show ?thesis by blast
qed

section \<open>The pools of an event\<close>

text \<open>
  The condition under which the payouts of a resolution add up to the distribution
  pool, that the winning choice's pool is the sum of its active stakes, is an invariant
  of betting: it holds for an event whose pools are empty and that has no bet, every
  \<open>placeBet\<close> preserves it, and it gives the condition for each choice of the event.
\<close>

lemma pool_consistent_winning:
  assumes "pool_consistent s eventId"
    and "find (\<lambda>c. c_choiceLetter c = w) (event_choices s eventId) = Some wc"
  shows "sum_list (map b_amount (winning_bets s eventId w)) = c_totalPool wc"
proof -
  from assms(2) have "wc \<in> set (event_choices s eventId)" "c_choiceLetter wc = w"
    by (auto simp add: find_Some_iff)
  with assms(1) show ?thesis by (auto simp add: pool_consistent_def list_all_iff)
qed

lemma placeBet_pool_consistent:
  assumes "pool_consistent s e"
  shows "pool_consistent (fst (placeBet s now u e' c amt)) e"
proof (cases "snd (placeBet s now u e' c amt)")
  case (Inl err)
  then show ?thesis using assms by (simp add: placeBet_fails_unchanged)
next
  case (Inr res)
  let ?s' = "fst (placeBet s now u e' c amt)"
  let ?new = "\<lparr>b_id = next_id s, b_eventId = e', b_userId = u, b_choiceLetter = c,
               b_amount = amt, b_status = bet_active\<rparr>"
  from Inr have ch: "choices ?s' = map (increment_pool e' c amt) (choices s)"
    and bs: "bets ?s' = bets s @ [?new]"
    by (auto simp add: placeBet_def Let_def split: option.splits if_splits)
  have keep: "c_eventId (increment_pool e' c amt x) = c_eventId x" for x
    by (simp add: increment_pool_def)
  have ec: "event_choices ?s' e = map (increment_pool e' c amt) (event_choices s e)"
    by (simp add: event_choices_def ch filter_map comp_def keep)
  have wb: "winning_bets ?s' e l = winning_bets s e l @ (if e' = e \<and> c = l then [?new] else [])" for l
    by (simp add: winning_bets_def event_active_bets_def bs)
  have "c_totalPool (increment_pool e' c amt x)
      = sum_list (map b_amount (winning_bets ?s' e (c_choiceLetter (increment_pool e' c amt x))))"
    if "x \<in> set (event_choices s e)" for x
  proof -
    from that have xe: "c_eventId x = e" by (simp add: event_choices_def)
    from that assms have "c_totalPool x = sum_list (map b_amount (winning_bets s e (c_choiceLetter x)))"
      by (simp add: pool_consistent_def list_all_iff)
    then show ?thesis using xe by (auto simp add: wb increment_pool_def)
  qed
  then show ?thesis by (simp add: pool_consistent_def ec list_all_iff)
qed

lemma empty_market_pool_consistent: "pool_consistent empty_market 1"
  by (simp add: pool_consistent_def empty_market_def event_choices_def winning_bets_def
        event_active_bets_def)

end
